theory Spec2Isabelle
  imports Complex_Main
begin

chapter \<open>The model\<close>

section \<open>Python values and exceptions\<close>

text \<open>
  The exceptions that the modelled functions raise or let through. \<open>PyException\<close> is the
  bare \<open>Exception\<close> raised by the outlier runner's callback; \<open>InterruptException\<close> is the
  class declared in \<open>owdistances.py\<close>; \<open>OtherError\<close> stands for any other exception
  raised by library code (a learner, a distance, a projector).
\<close>

datatype py_exception =
    TypeError
  | KeyError
  | IndexError
  | AssertionError
  | ValueError string
  | LinAlgError string
  | MemoryError
  | InterruptException
  | PyException
  | OtherError

text \<open>Values stored in a settings dictionary: Python ints and bools.\<close>

datatype pyval = PInt int | PBool bool

text \<open>A Python bool is an int (\<open>True == 1\<close>); comparisons and list indexing read it so.\<close>

fun as_int :: "pyval \<Rightarrow> int" where
  "as_int (PInt i) = i"
| "as_int (PBool b) = (if b then 1 else 0)"

fun truthy :: "pyval \<Rightarrow> bool" where
  "truthy (PInt i) = (i \<noteq> 0)"
| "truthy (PBool b) = b"

text \<open>\<open>xs[i]\<close> on a Python list: negative indices count from the end, out of range raises.\<close>

definition py_getitem :: "'a list \<Rightarrow> int \<Rightarrow> py_exception + 'a" where
  "py_getitem xs i =
     (if 0 \<le> i \<and> i < int (length xs) then Inr (xs ! nat i)
      else if i < 0 \<and> - int (length xs) \<le> i then Inr (xs ! nat (int (length xs) + i))
      else Inl IndexError)"

type_synonym settings = "string \<rightharpoonup> pyval"

section \<open>Distances: metric ids and migration of saved settings\<close>

text \<open>
  \<open>Euclidean, EuclideanNormalized, Manhattan, ManhattanNormalized, Cosine, Mahalanobis,
  Hamming, Pearson, PearsonAbsolute, Spearman, SpearmanAbsolute, Jaccard = range(12)\<close>
\<close>

definition Euclidean :: int where "Euclidean = 0"
definition EuclideanNormalized :: int where "EuclideanNormalized = 1"
definition Manhattan :: int where "Manhattan = 2"
definition ManhattanNormalized :: int where "ManhattanNormalized = 3"
definition Cosine :: int where "Cosine = 4"
definition Mahalanobis :: int where "Mahalanobis = 5"
definition Hamming :: int where "Hamming = 6"
definition Pearson :: int where "Pearson = 7"
definition PearsonAbsolute :: int where "PearsonAbsolute = 8"
definition Spearman :: int where "Spearman = 9"
definition SpearmanAbsolute :: int where "SpearmanAbsolute = 10"
definition Jaccard :: int where "Jaccard = 11"

text \<open>
  \<open>OWDistances.migrate_settings(cls, settings, version)\<close>, one definition per \<open>if\<close> block
  of the source. \<open>version\<close> is \<open>None\<close> or an int. The dictionary is mutated in place in
  the source; the model returns the new dictionary, or the exception.
\<close>

text \<open>
  \<open>if version is None or version < 2 and "normalized_dist" not in settings:
      settings["normalized_dist"] = False\<close>
  (\<open>and\<close> binds tighter than \<open>or\<close>).
\<close>

definition migrate_block2 :: "settings \<Rightarrow> int option \<Rightarrow> settings" where
  "migrate_block2 settings version =
     (if version = None \<or> (the version < 2 \<and> settings ''normalized_dist'' = None)
      then settings(''normalized_dist'' \<mapsto> PBool False)
      else settings)"

text \<open>
  \<open>if version is None or version < 3:
      metric_idx = settings["metric_idx"]
      if metric_idx == 2: settings["metric_idx"] = 9
      elif 2 < metric_idx <= 9: settings["metric_idx"] -= 1\<close>
\<close>

definition migrate_block3 :: "settings \<Rightarrow> int option \<Rightarrow> py_exception + settings" where
  "migrate_block3 settings version =
     (if version = None \<or> the version < 3 then
        (case settings ''metric_idx'' of
           None \<Rightarrow> Inl KeyError
         | Some v \<Rightarrow>
             let metric_idx = as_int v in
             if metric_idx = 2 then Inr (settings(''metric_idx'' \<mapsto> PInt 9))
             else if 2 < metric_idx \<and> metric_idx \<le> 9
               then Inr (settings(''metric_idx'' \<mapsto> PInt (metric_idx - 1)))
             else Inr settings)
      else Inr settings)"

text \<open>The list literal indexed by \<open>metric_idx\<close> in the last block.\<close>

definition old_metric_ids :: "int list" where
  "old_metric_ids =
     [Euclidean, Manhattan, Cosine, Jaccard, Spearman, SpearmanAbsolute, Pearson,
      PearsonAbsolute, Hamming, Mahalanobis, Euclidean]"

text \<open>
  \<open>{Euclidean: EuclideanNormalized, Manhattan: ManhattanNormalized}.get(metric_id, metric_id)\<close>
\<close>

definition normalized_variant :: "int \<Rightarrow> int" where
  "normalized_variant metric_id =
     (if metric_id = Euclidean then EuclideanNormalized
      else if metric_id = Manhattan then ManhattanNormalized
      else metric_id)"

text \<open>
  \<open>if version < 4:
      metric_idx = settings.pop("metric_idx")
      metric_id = [...][metric_idx]
      if settings.pop("normalized_dist", False):
          metric_id = {...}.get(metric_id, metric_id)
      settings["metric_id"] = metric_id\<close>
  Comparing \<open>None < 4\<close> raises \<open>TypeError\<close>.
\<close>

definition migrate_block4 :: "settings \<Rightarrow> int option \<Rightarrow> py_exception + settings" where
  "migrate_block4 settings version =
     (case version of
        None \<Rightarrow> Inl TypeError
      | Some ver \<Rightarrow>
          if ver < 4 then
            (case settings ''metric_idx'' of
               None \<Rightarrow> Inl KeyError
             | Some v \<Rightarrow>
                 (case py_getitem old_metric_ids (as_int v) of
                    Inl e \<Rightarrow> Inl e
                  | Inr metric_id \<Rightarrow>
                      let popped = settings(''metric_idx'' := None);
                          normalized =
                            (case popped ''normalized_dist'' of
                               None \<Rightarrow> False | Some b \<Rightarrow> truthy b);
                          popped2 = popped(''normalized_dist'' := None);
                          metric_id2 =
                            (if normalized then normalized_variant metric_id else metric_id)
                      in Inr (popped2(''metric_id'' \<mapsto> PInt metric_id2))))
          else Inr settings)"

definition migrate_settings :: "settings \<Rightarrow> int option \<Rightarrow> py_exception + settings" where
  "migrate_settings settings version =
     (case migrate_block3 (migrate_block2 settings version) version of
        Inl e \<Rightarrow> Inl e
      | Inr settings3 \<Rightarrow> migrate_block4 settings3 version)"

text \<open>
  The migration as the specification words it, to be compared with the code: before
  version 3, index 2 becomes 9 and indices 3 to 9 move down by one; before version 4,
  a set \<open>normalized_dist\<close> turns Euclidean and Manhattan into their normalized variants
  and leaves every other metric as it is.
\<close>

definition spec_index_v3 :: "int \<Rightarrow> int \<Rightarrow> int" where
  "spec_index_v3 ver i =
     (if ver < 3 then (if i = 2 then 9 else if 3 \<le> i \<and> i \<le> 9 then i - 1 else i) else i)"

definition spec_upgrade :: "bool \<Rightarrow> int \<Rightarrow> int" where
  "spec_upgrade normalized m =
     (if normalized \<and> m = Euclidean then EuclideanNormalized
      else if normalized \<and> m = Manhattan then ManhattanNormalized
      else m)"

text \<open>
  Whether \<open>normalized_dist\<close> counts as set when the last block runs: a dictionary saved
  before version 2 without the key gets \<open>False\<close>.
\<close>

definition spec_normalized :: "settings \<Rightarrow> bool" where
  "spec_normalized settings =
     (case settings ''normalized_dist'' of None \<Rightarrow> False | Some b \<Rightarrow> truthy b)"

section \<open>Manifold Learning: migration of saved settings\<close>

text \<open>
  The value lists of the t-SNE editor that the migration measures (the second components
  are the labels shown, Chinese in the source).
\<close>

definition initialization_values :: "(string \<times> string) list" where
  "initialization_values = [(''pca'', ''PCA''), (''random'', ''Random'')]"

definition metric_values :: "(string \<times> string) list" where
  "metric_values =
     [(''euclidean'', ''Euclidean''), (''manhattan'', ''Manhattan''),
      (''chebyshev'', ''Chebyshev''), (''jaccard'', ''Jaccard'')]"

text \<open>
  \<open>OWManifoldLearning.migrate_settings(cls, settings, version)\<close>, on the part of the
  settings that it touches: the dictionaries of the editors, with their integer entries.
  \<open>version < 2\<close> raises \<open>TypeError\<close> for \<open>None\<close>. Without a \<open>tsne_editor\<close> entry the
  function works on a new empty dictionary that the settings do not hold.
\<close>

definition manifold_migrate_settings ::
  "(string \<rightharpoonup> (string \<rightharpoonup> int)) \<Rightarrow> int option
     \<Rightarrow> py_exception + (string \<rightharpoonup> (string \<rightharpoonup> int))" where
  "manifold_migrate_settings settings version =
     (case version of
        None \<Rightarrow> Inl TypeError
      | Some ver \<Rightarrow>
          if ver < 2 then
            (case settings ''tsne_editor'' of
               None \<Rightarrow> Inr settings
             | Some tsne_settings \<Rightarrow>
                 let tsne1 =
                       (case tsne_settings ''init_index'' of
                          None \<Rightarrow> tsne_settings
                        | Some idx \<Rightarrow>
                            (tsne_settings(''init_index'' := None))
                              (''initialization_index'' \<mapsto>
                                 min idx (int (length initialization_values))));
                     tsne2 =
                       (case tsne1 ''metric_index'' of
                          None \<Rightarrow> tsne1
                        | Some idx \<Rightarrow>
                            tsne1(''metric_index'' \<mapsto> min idx (int (length metric_values))))
                 in Inr (settings(''tsne_editor'' \<mapsto> tsne2)))
          else Inr settings)"

text \<open>
  What the editor does with a stored index (\<open>values[index][0]\<close> in
  \<open>__combo_parameter_update\<close> and \<open>__radio_parameter_update\<close>).
\<close>

definition parameter_of_index :: "(string \<times> string) list \<Rightarrow> int \<Rightarrow> py_exception + string" where
  "parameter_of_index values index =
     (case py_getitem values index of Inl e \<Rightarrow> Inl e | Inr v \<Rightarrow> Inr (fst v))"

section \<open>Background tasks: task state, callbacks and library computations\<close>

text \<open>
  Modelled from the spec: \<open>TaskState\<close> of \<open>Orange.widgets.utils.concurrent\<close>, which is
  not among the sources. The spec names progress callbacks, interruption callbacks and
  partial-result streaming; the runners use \<open>set_progress_value\<close>, \<open>set_status\<close>,
  \<open>set_partial_result\<close> and \<open>is_interruption_requested\<close>. The state keeps the last
  progress value and status, the partial results handed over so far (oldest first) and
  \<open>polls\<close>, the number of times the task has asked whether it is interrupted.
  Python floats are modelled as rationals.
\<close>

record 'r task_state =
  progress_value :: rat
  status :: string
  polls :: nat
  partial_results :: "'r list"

definition new_task_state :: "'r task_state" where
  "new_task_state = \<lparr>progress_value = 0, status = [], polls = 0, partial_results = []\<rparr>"

definition set_progress_value :: "rat \<Rightarrow> 'r task_state \<Rightarrow> 'r task_state" where
  "set_progress_value v st = st\<lparr>progress_value := v\<rparr>"

definition set_status :: "string \<Rightarrow> 'r task_state \<Rightarrow> 'r task_state" where
  "set_status text st = st\<lparr>status := text\<rparr>"

definition set_partial_result :: "'r \<Rightarrow> 'r task_state \<Rightarrow> 'r task_state" where
  "set_partial_result r st = st\<lparr>partial_results := partial_results st @ [r]\<rparr>"

text \<open>
  The interruption flag is set by the widget's thread. What the task reads is given by
  \<open>req\<close>: \<open>req k\<close> is the answer to the task's \<open>k\<close>-th question (counted from 0).
\<close>

definition is_interruption_requested ::
  "(nat \<Rightarrow> bool) \<Rightarrow> 'r task_state \<Rightarrow> bool \<times> 'r task_state" where
  "is_interruption_requested req st = (req (polls st), st\<lparr>polls := Suc (polls st)\<rparr>)"

text \<open>
  A computation of library code (a learner, a model, a distance) that is given a progress
  callback: it works, reports progress \<open>p\<close> through the callback and goes on
  (\<open>Report\<close>), until it returns a value or raises. The library passes an exception of
  the callback on to its caller.
\<close>

datatype 'a job = Return 'a | Raise py_exception | Report rat "'a job"

fun run_job ::
  "(rat \<Rightarrow> 's \<Rightarrow> py_exception option \<times> 's) \<Rightarrow> 'a job \<Rightarrow> 's \<Rightarrow> (py_exception + 'a) \<times> 's" where
  "run_job cb (Return x) st = (Inr x, st)"
| "run_job cb (Raise e) st = (Inl e, st)"
| "run_job cb (Report p k) st =
     (case cb p st of
        (Some e, st') \<Rightarrow> (Inl e, st')
      | (None, st') \<Rightarrow> run_job cb k st')"

text \<open>What the computation ends with when no callback interferes.\<close>

fun job_result :: "'a job \<Rightarrow> py_exception + 'a" where
  "job_result (Return x) = Inr x"
| "job_result (Raise e) = Inl e"
| "job_result (Report p k) = job_result k"

text \<open>The number of progress reports the computation makes when it runs to its end.\<close>

fun job_reports :: "'a job \<Rightarrow> nat" where
  "job_reports (Return x) = 0"
| "job_reports (Raise e) = 0"
| "job_reports (Report p k) = Suc (job_reports k)"

text \<open>
  Modelled from the spec: \<open>wrap_callback\<close> of \<open>Orange.util\<close>, which is not among the
  sources: the callback with its progress argument rescaled from \<open>[0, 1]\<close> to
  \<open>[start, end]\<close>.
\<close>

definition wrap_callback ::
  "(rat \<Rightarrow> 's \<Rightarrow> 'x) \<Rightarrow> rat \<Rightarrow> rat \<Rightarrow> rat \<Rightarrow> 's \<Rightarrow> 'x" where
  "wrap_callback progress_callback start end' progress =
     progress_callback (start + progress * (end' - start))"

section \<open>Outliers: the task function\<close>

text \<open>A table is its rows; \<open>n_attributes\<close> is \<open>len(data.domain.attributes)\<close>.\<close>

record 'row table =
  rows :: "'row list"
  n_attributes :: nat

text \<open>
  The prediction table returned by the model: a table, and the column of the model's
  outlier variable (\<open>pred.get_column(model.outlier_var)\<close>).
\<close>

record 'row prediction =
  pred_table :: "'row table"
  outlier_column :: "rat list"

type_synonym 'row outlier_model = "'row table \<Rightarrow> 'row prediction job"

type_synonym 'row learner = "'row table \<Rightarrow> 'row outlier_model job"

text \<open>\<open>class Results(SimpleNamespace)\<close>: three fields, \<open>None\<close> by default.\<close>

record 'row results =
  inliers :: "'row table option"
  outliers :: "'row table option"
  annotated_data :: "'row prediction option"

definition Results :: "'row results" where
  "Results = \<lparr>inliers = None, outliers = None, annotated_data = None\<rparr>"

text \<open>\<open>np.where(col == v)[0]\<close>: the positions of the column that hold \<open>v\<close>, ascending.\<close>

definition np_where_eq :: "rat list \<Rightarrow> rat \<Rightarrow> nat list" where
  "np_where_eq col v = filter (\<lambda>i. col ! i = v) [0..<length col]"

text \<open>\<open>data[ind]\<close> with an index array: the rows at these positions; out of range raises.\<close>

definition table_getitem :: "'row table \<Rightarrow> nat list \<Rightarrow> py_exception + 'row table" where
  "table_getitem data ind =
     (if list_all (\<lambda>i. i < length (rows data)) ind
      then Inr (data\<lparr>rows := map (\<lambda>i. rows data ! i) ind\<rparr>)
      else Inl IndexError)"

text \<open>
  The local \<open>callback(i, status="")\<close> of \<open>run\<close>:
  \<open>state.set_progress_value(i * 100); if status: state.set_status(status);
  if state.is_interruption_requested(): raise Exception\<close>.
\<close>

definition outliers_callback ::
  "(nat \<Rightarrow> bool) \<Rightarrow> string \<Rightarrow> rat \<Rightarrow> 'r task_state \<Rightarrow> py_exception option \<times> 'r task_state" where
  "outliers_callback req status_text i st =
     (let st1 = set_progress_value (i * 100) st;
          st2 = (if status_text \<noteq> [] then set_status status_text st1 else st1);
          (requested, st3) = is_interruption_requested req st2
      in if requested then (Some PyException, st3) else (None, st3))"

text \<open>
  \<open>run(data, learner, state)\<close>. \<open>not data\<close> holds for \<open>None\<close> and for a table without
  rows. The status text of the source is the Chinese for "Initializing...". The result
  comes with the task state as the function leaves it, also when it raises.
\<close>

definition run ::
  "'row table option \<Rightarrow> 'row learner \<Rightarrow> (nat \<Rightarrow> bool) \<Rightarrow> 'r task_state
     \<Rightarrow> (py_exception + 'row results) \<times> 'r task_state" where
  "run data learner req state =
     (case data of
        None \<Rightarrow> (Inr Results, state)
      | Some d \<Rightarrow>
          if rows d = [] then (Inr Results, state)
          else
            (case outliers_callback req ''Initializing...'' 0 state of
               (Some e, st1) \<Rightarrow> (Inl e, st1)
             | (None, st1) \<Rightarrow>
                 (case run_job (wrap_callback (outliers_callback req []) 0 (6 / 10))
                         (learner d) st1 of
                    (Inl e, st2) \<Rightarrow> (Inl e, st2)
                  | (Inr model, st2) \<Rightarrow>
                      (case run_job (wrap_callback (outliers_callback req []) (6 / 10) (99 / 100))
                              (model d) st2 of
                         (Inl e, st3) \<Rightarrow> (Inl e, st3)
                       | (Inr pred, st3) \<Rightarrow>
                           let col = outlier_column pred;
                               inliers_ind = np_where_eq col 1;
                               outliers_ind = np_where_eq col 0
                           in (case table_getitem d inliers_ind of
                                 Inl e \<Rightarrow> (Inl e, st3)
                               | Inr inl \<Rightarrow>
                                   (case table_getitem d outliers_ind of
                                      Inl e \<Rightarrow> (Inl e, st3)
                                    | Inr outl \<Rightarrow>
                                        let results = \<lparr>inliers = Some inl, outliers = Some outl,
                                                        annotated_data = Some pred\<rparr>
                                        in (case outliers_callback req [] 1 st3 of
                                              (Some e, st4) \<Rightarrow> (Inl e, st4)
                                            | (None, st4) \<Rightarrow> (Inr results, st4))))))))"

section \<open>Distances: the task function\<close>

text \<open>The keyword arguments that \<open>DistanceRunner.run\<close> passes to the metric.\<close>

record kwargs =
  kw_axis :: int
  kw_impute :: bool
  kw_normalize :: "bool option"

text \<open>
  A distance class of \<open>Orange.distance\<close> (not among the sources), as far as the runner
  uses it: its \<open>supports_normalization\<close> flag and the call \<open>metric(data, **kwargs)\<close>,
  whose \<open>callback\<close> argument is the callback of \<open>run_job\<close>.
\<close>

record ('d, 'm) metric =
  supports_normalization :: bool
  compute :: "'d \<Rightarrow> kwargs \<Rightarrow> 'm job"

text \<open>
  The local \<open>callback(i)\<close>:
  \<open>state.set_progress_value(i); if state.is_interruption_requested(): raise InterruptException\<close>.
\<close>

definition distance_callback ::
  "(nat \<Rightarrow> bool) \<Rightarrow> rat \<Rightarrow> 'r task_state \<Rightarrow> py_exception option \<times> 'r task_state" where
  "distance_callback req i st =
     (let st1 = set_progress_value i st;
          (requested, st2) = is_interruption_requested req st1
      in if requested then (Some InterruptException, st2) else (None, st2))"

text \<open>
  \<open>DistanceRunner.run(data, metric, normalized_dist, axis, state)\<close>; the status text of
  the source is the Chinese for "Calculating...".
\<close>

definition DistanceRunner_run ::
  "'d option \<Rightarrow> ('d, 'm) metric \<Rightarrow> bool \<Rightarrow> int \<Rightarrow> (nat \<Rightarrow> bool) \<Rightarrow> 'r task_state
     \<Rightarrow> (py_exception + 'm option) \<times> 'r task_state" where
  "DistanceRunner_run data metric normalized_dist axis req state =
     (case data of
        None \<Rightarrow> (Inr None, state)
      | Some d \<Rightarrow>
          let st1 = set_status ''Calculating...'' state;
              kw = \<lparr>kw_axis = 1 - axis, kw_impute = True, kw_normalize = None\<rparr>;
              kw2 = (if supports_normalization metric \<and> normalized_dist
                     then kw\<lparr>kw_normalize := Some True\<rparr> else kw)
          in (case run_job (distance_callback req) (compute metric d kw2) st1 of
                (Inl e, st2) \<Rightarrow> (Inl e, st2)
              | (Inr m, st2) \<Rightarrow> (Inr (Some m), st2)))"

section \<open>FreeViz: the task function\<close>

text \<open>
  The anchors (\<open>projector.components_.T\<close>) are a matrix of floats, here a list of rows of
  rationals. The projector is the \<open>FreeViz\<close> object as far as the task function reads and
  writes it: its \<open>initial\<close> anchors and its \<open>components_\<close> (kept transposed).
\<close>

type_synonym anchors = "rat list list"

record projector =
  initial :: anchors
  components_T :: anchors

text \<open>
  Objects that are shared by reference live in a store: a list of objects, an address is
  a position in it. \<open>copy\<close> allocates a new object with the contents of the given one.
\<close>

definition copy :: "nat \<Rightarrow> 'm list \<Rightarrow> nat \<times> 'm list" where
  "copy a store = (length store, store @ [store ! a])"

text \<open>
  \<open>class Result(namespace)\<close>: the projector and the address of the projection
  (\<open>None\<close> before the first iteration).
\<close>

record result =
  res_projector :: projector
  res_projection :: "nat option"

definition MAX_ITERATIONS :: nat where
  "MAX_ITERATIONS = 1000"

text \<open>
  \<open>np.allclose(a, b, rtol=1e-5, atol=1e-4)\<close>: every entry satisfies
  \<open>|a - b| <= atol + rtol * |b|\<close>. The two matrices have the same shape in the loop.
\<close>

definition isclose :: "rat \<Rightarrow> rat \<Rightarrow> bool" where
  "isclose a b \<longleftrightarrow> \<bar>a - b\<bar> \<le> 1 / 10000 + 1 / 100000 * \<bar>b\<bar>"

definition allclose :: "anchors \<Rightarrow> anchors \<Rightarrow> bool" where
  "allclose a b \<longleftrightarrow> list_all2 (list_all2 isclose) a b"

text \<open>
  The call \<open>res.projector(data)\<close> of \<open>Orange.projection.FreeViz\<close> (not among the sources)
  is the parameter \<open>fit\<close>: from the data, the projector and the store it raises, or
  gives the new anchors (\<open>components_.T\<close> after the call), the address of the model it
  returns and the store after the call.

  The body of \<open>while True\<close>, with fuel: \<open>None\<close> is "the loop has not returned within
  this many iterations". Each iteration calls the projector, copies its model, stores the
  copy in \<open>res\<close>, sets \<open>projector.initial\<close>, hands \<open>res\<close> over as a partial result, and
  returns if the anchors have not moved; otherwise it counts the step, reports
  \<open>100 * step / steps\<close> and returns if interruption is requested.
\<close>

fun freeviz_loop ::
  "nat \<Rightarrow> ('d \<Rightarrow> projector \<Rightarrow> 'm list \<Rightarrow> py_exception + anchors \<times> nat \<times> 'm list)
     \<Rightarrow> (nat \<Rightarrow> bool) \<Rightarrow> 'd \<Rightarrow> result \<Rightarrow> nat \<Rightarrow> anchors \<Rightarrow> 'm list \<Rightarrow> result task_state
     \<Rightarrow> ((py_exception + result) \<times> 'm list \<times> result task_state) option" where
  "freeviz_loop 0 fit req data res step initial' store state = None"
| "freeviz_loop (Suc fuel) fit req data res step initial' store state =
     (case fit data (res_projector res) store of
        Inl e \<Rightarrow> Some (Inl e, store, state)
      | Inr (anchors, model, store1) \<Rightarrow>
          let (projection, store2) = copy model store1;
              res1 = \<lparr>res_projector = \<lparr>initial = anchors, components_T = anchors\<rparr>,
                      res_projection = Some projection\<rparr>;
              st1 = set_partial_result res1 state
          in if allclose initial' anchors then Some (Inr res1, store2, st1)
             else
               let step1 = step + 1;
                   st2 = set_progress_value (100 * of_nat step1 / of_nat MAX_ITERATIONS) st1;
                   (requested, st3) = is_interruption_requested req st2
               in if requested then Some (Inr res1, store2, st3)
                  else freeviz_loop fuel fit req data res1 step1 anchors store2 st3)"

text \<open>
  \<open>run_freeviz(data, projector, state)\<close>; the status text of the source is the Chinese
  for "Calculating...".
\<close>

definition run_freeviz ::
  "nat \<Rightarrow> ('d \<Rightarrow> projector \<Rightarrow> 'm list \<Rightarrow> py_exception + anchors \<times> nat \<times> 'm list)
     \<Rightarrow> (nat \<Rightarrow> bool) \<Rightarrow> 'd \<Rightarrow> projector \<Rightarrow> 'm list \<Rightarrow> result task_state
     \<Rightarrow> ((py_exception + result) \<times> 'm list \<times> result task_state) option" where
  "run_freeviz fuel fit req data projector' store state =
     (let res = \<lparr>res_projector = projector', res_projection = None\<rparr>;
          initial' = components_T (res_projector res);
          st1 = set_status ''Calculating...'' state
      in freeviz_loop fuel fit req data res 0 initial' store st1)"

text \<open>
  The same loop, observed after at most \<open>n\<close> iterations: what it has returned or raised
  by then (\<open>None\<close> while it is still running), with the store and the task state at that
  moment. It is the body of \<open>freeviz_loop\<close>, and differs only in keeping the state when
  the iterations are used up.
\<close>

fun freeviz_steps ::
  "nat \<Rightarrow> ('d \<Rightarrow> projector \<Rightarrow> 'm list \<Rightarrow> py_exception + anchors \<times> nat \<times> 'm list)
     \<Rightarrow> (nat \<Rightarrow> bool) \<Rightarrow> 'd \<Rightarrow> result \<Rightarrow> nat \<Rightarrow> anchors \<Rightarrow> 'm list \<Rightarrow> result task_state
     \<Rightarrow> (py_exception + result) option \<times> 'm list \<times> result task_state" where
  "freeviz_steps 0 fit req data res step initial' store state = (None, store, state)"
| "freeviz_steps (Suc n) fit req data res step initial' store state =
     (case fit data (res_projector res) store of
        Inl e \<Rightarrow> (Some (Inl e), store, state)
      | Inr (anchors, model, store1) \<Rightarrow>
          let (projection, store2) = copy model store1;
              res1 = \<lparr>res_projector = \<lparr>initial = anchors, components_T = anchors\<rparr>,
                      res_projection = Some projection\<rparr>;
              st1 = set_partial_result res1 state
          in if allclose initial' anchors then (Some (Inr res1), store2, st1)
             else
               let step1 = step + 1;
                   st2 = set_progress_value (100 * of_nat step1 / of_nat MAX_ITERATIONS) st1;
                   (requested, st3) = is_interruption_requested req st2
               in if requested then (Some (Inr res1), store2, st3)
                  else freeviz_steps n fit req data res1 step1 anchors store2 st3)"

definition run_freeviz_steps ::
  "nat \<Rightarrow> ('d \<Rightarrow> projector \<Rightarrow> 'm list \<Rightarrow> py_exception + anchors \<times> nat \<times> 'm list)
     \<Rightarrow> (nat \<Rightarrow> bool) \<Rightarrow> 'd \<Rightarrow> projector \<Rightarrow> 'm list \<Rightarrow> result task_state
     \<Rightarrow> (py_exception + result) option \<times> 'm list \<times> result task_state" where
  "run_freeviz_steps n fit req data projector' store state =
     (let res = \<lparr>res_projector = projector', res_projection = None\<rparr>;
          initial' = components_T (res_projector res);
          st1 = set_status ''Calculating...'' state
      in freeviz_steps n fit req data res 0 initial' store st1)"

section \<open>Widgets: the task mixin and the deferred commit\<close>

text \<open>
  Modelled from the spec: \<open>ConcurrentWidgetMixin\<close> of \<open>Orange.widgets.utils.concurrent\<close>,
  which is not among the sources. The spec names its operations (\<open>start\<close>, \<open>cancel\<close>,
  \<open>on_done\<close>, \<open>on_exception\<close>, \<open>on_partial_result\<close>) and its contract: cooperative
  cancellation and the delivery of the terminal state. The widgets read \<open>self.task\<close>,
  which is \<open>None\<close> when no task runs. \<open>start\<close> cancels the task of the widget, if any,
  and makes the new one its task; every task gets a number. When the executor reports
  that a task has ended, its outcome is delivered (\<open>on_done\<close> for a result,
  \<open>on_exception\<close> for an exception) if it still is the widget's task, which the widget
  then no longer has; \<open>delivered\<close> lists these calls, oldest first.
\<close>

record ('t, 'r) concurrent =
  task :: "(nat \<times> 't) option"
  next_id :: nat
  delivered :: "(nat \<times> (py_exception + 'r)) list"

definition cancel :: "('t, 'r, 'z) concurrent_scheme \<Rightarrow> ('t, 'r, 'z) concurrent_scheme" where
  "cancel w = w\<lparr>task := None\<rparr>"

definition start :: "'t \<Rightarrow> ('t, 'r, 'z) concurrent_scheme \<Rightarrow> ('t, 'r, 'z) concurrent_scheme" where
  "start t w = (cancel w)\<lparr>task := Some (next_id w, t), next_id := Suc (next_id w)\<rparr>"











text \<open>
  What a widget puts on an output channel is a Python object: \<open>None\<close>, a \<open>Table\<close>, a
  \<open>DistMatrix\<close>, or something else.
\<close>

datatype ('row, 'm) pyobj = PyNone | PyTable "'row table" | PyDistMatrix 'm | PyOther




section \<open>The Outliers widget\<close>

text \<open>The arguments that \<open>commit\<close> hands to \<open>start\<close> with the function \<open>run\<close>.\<close>

record 'row outliers_task =
  task_data :: "'row table option"
  task_learner :: "'row learner"


text \<open>
  The widget: its task (the mixin), the input, the settings, the index of the editor
  shown, the parameters that each of the four editors holds, its messages, the counts
  for the report, whether a deferred commit is pending, and what it has sent, oldest
  first, as pairs of channel and value. The channel names of the source are the Chinese
  for "Inliers", "Outliers" and "Data".
\<close>

record ('row, 'k) OWOutliers = "('row outliers_task, 'row results) concurrent" +
  ol_data :: "'row table option"
  outlier_method :: nat
  current_editor :: nat
  editor_parameters :: "nat \<Rightarrow> 'k"
  auto_commit :: bool
  commit_pending :: bool
  disabled_cov :: bool
  singular_cov :: bool
  memory_error :: bool
  n_inliers :: "nat option"
  n_outliers :: "nat option"
  ol_sent :: "(string \<times> ('row, unit) pyobj) list"














text \<open>\<open>on_exception(ex)\<close>: two kinds of exception become messages, any other is raised.\<close>

definition OWOutliers_on_exception ::
  "py_exception \<Rightarrow> ('row, 'k) OWOutliers \<Rightarrow> py_exception + ('row, 'k) OWOutliers" where
  "OWOutliers_on_exception ex w =
     (case ex of
        ValueError msg \<Rightarrow> Inr (w\<lparr>singular_cov := True\<rparr>)
      | MemoryError \<Rightarrow> Inr (w\<lparr>memory_error := True\<rparr>)
      | _ \<Rightarrow> Inl ex)"

section \<open>The Distances widget\<close>

text \<open>The classes of \<open>Orange.distance\<close> that \<open>MetricDefs\<close> names.\<close>

datatype distance_class =
    DEuclidean | DManhattan | DMahalanobis | DHamming | DCosine
  | DPearsonR | DPearsonRAbsolute | DSpearmanRAbsolute | DJaccard

text \<open>
  \<open>MetricDefs\<close>, a dictionary from the metric id to its definition, of which the class
  and the \<open>normalize\<close> flag are kept here (the entry for \<open>Spearman\<close> names the class
  \<open>PearsonR\<close> in the source).
\<close>

definition MetricDefs :: "int \<rightharpoonup> distance_class \<times> bool" where
  "MetricDefs =
     [EuclideanNormalized \<mapsto> (DEuclidean, True),
      Euclidean \<mapsto> (DEuclidean, False),
      ManhattanNormalized \<mapsto> (DManhattan, True),
      Manhattan \<mapsto> (DManhattan, False),
      Mahalanobis \<mapsto> (DMahalanobis, False),
      Hamming \<mapsto> (DHamming, False),
      Cosine \<mapsto> (DCosine, False),
      Pearson \<mapsto> (DPearsonR, False),
      PearsonAbsolute \<mapsto> (DPearsonRAbsolute, False),
      Spearman \<mapsto> (DPearsonR, False),
      SpearmanAbsolute \<mapsto> (DSpearmanRAbsolute, False),
      Jaccard \<mapsto> (DJaccard, False)]"

text \<open>The arguments that \<open>compute_distances\<close> hands to \<open>start\<close> with \<open>DistanceRunner.run\<close>.\<close>

record ('d, 'm) distance_task =
  dt_data :: "'d option"
  dt_metric :: "('d, 'm) metric"
  dt_normalized_dist :: bool
  dt_axis :: int

text \<open>
  The widget: its task, the input, the settings \<open>axis\<close>, \<open>metric_id\<close> and \<open>autocommit\<close>,
  the messages shown, whether a deferred commit is pending, and the values sent on the
  output (whose name in the source is the Chinese for "Distances").
\<close>

record ('row, 'd, 'm) OWDistances = "(('d, 'm) distance_task, 'm option) concurrent" +
  dist_data :: "'d option"
  axis :: int
  metric_id :: int
  autocommit :: bool
  dist_pending :: bool
  dist_messages :: "string list"
  dist_sent :: "(string \<times> ('row, 'm) pyobj) list"

text \<open>
  \<open>compute_distances(data)\<close>. The classes of \<open>Orange.distance\<close> are the parameter
  \<open>classes\<close>. The five local checks of the source (\<open>_check_sparse\<close>,
  \<open>_check_tractability\<close>, \<open>_fix_discrete\<close>, \<open>_fix_missing\<close>, \<open>_fix_nonbinary\<close>), which read
  the data through the table library and run in this order until one fails, are the
  parameter \<open>checks\<close>: from the metric, the axis and the data it gives the messages
  raised and the data left, \<open>None\<close> if a check has failed. \<open>start\<close> is called in
  either case.
\<close>

definition compute_distances ::
  "(distance_class \<Rightarrow> ('d, 'm) metric) \<Rightarrow> (('d, 'm) metric \<Rightarrow> int \<Rightarrow> 'd \<Rightarrow> string list \<times> 'd option)
     \<Rightarrow> 'd option \<Rightarrow> ('row, 'd, 'm) OWDistances \<Rightarrow> py_exception + ('row, 'd, 'm) OWDistances" where
  "compute_distances classes checks data w =
     (case MetricDefs (metric_id w) of
        None \<Rightarrow> Inl KeyError
      | Some (cls, normalize') \<Rightarrow>
          let metric = classes cls;
              w1 = w\<lparr>dist_messages := []\<rparr>;
              (msgs, data1) = (case data of
                                 None \<Rightarrow> ([], None)
                               | Some d \<Rightarrow> checks metric (axis w1) d);
              w2 = w1\<lparr>dist_messages := msgs\<rparr>
          in Inr (start \<lparr>dt_data = data1, dt_metric = metric,
                         dt_normalized_dist = normalize', dt_axis = axis w2\<rparr> w2))"

definition OWDistances_commit ::
  "(distance_class \<Rightarrow> ('d, 'm) metric) \<Rightarrow> (('d, 'm) metric \<Rightarrow> int \<Rightarrow> 'd \<Rightarrow> string list \<times> 'd option)
     \<Rightarrow> ('row, 'd, 'm) OWDistances \<Rightarrow> py_exception + ('row, 'd, 'm) OWDistances" where
  "OWDistances_commit classes checks w = compute_distances classes checks (dist_data w) w"



section \<open>The Manifold Learning widget\<close>






section \<open>The FreeViz widget\<close>

text \<open>The arguments that \<open>_run\<close> hands to \<open>start\<close> with \<open>run_freeviz\<close>.\<close>

record 'd freeviz_task =
  ft_data :: 'd
  ft_projector :: "projector option"

text \<open>
  The widget as far as \<open>_run\<close> and the callbacks of the mixin use it: its task, the
  data, the projector and the address of the projection, the sample size of the graph
  and the text of the run button (Chinese for "Start", "Stop", "Resume" in the source).
  The redrawing of the graph is not modelled.
\<close>

record 'd OWFreeViz = "('d freeviz_task, result) concurrent" +
  fv_data :: "'d option"
  fv_projector :: "projector option"
  fv_projection :: "nat option"
  sample_size :: "nat option"
  run_button_text :: string


text \<open>
  \<open>on_partial_result(result)\<close>: the two assertions (a projector of class \<open>FreeViz\<close>, which
  the type gives, and a projection that is a \<open>FreeVizModel\<close>, so not \<open>None\<close>), then
  \<open>self.projector = result.projector; self.projection = result.projection\<close>.
\<close>

definition OWFreeViz_on_partial_result ::
  "result \<Rightarrow> 'd OWFreeViz \<Rightarrow> py_exception + 'd OWFreeViz" where
  "OWFreeViz_on_partial_result result' w =
     (if res_projection result' = None then Inl AssertionError
      else Inr (w\<lparr>fv_projector := Some (res_projector result'),
                  fv_projection := res_projection result'\<rparr>))"

section \<open>The Data Sampler widget\<close>

text \<open>
  The input table as far as the widget reads it: its rows, the number of values of its
  class variable if it has a discrete class (\<open>data.domain.has_discrete_class\<close>), and
  whether it is an \<open>SqlTable\<close>.
\<close>

record 'row dataset =
  ds_rows :: "'row list"
  ds_class_values :: "nat option"
  ds_is_sql :: bool

text \<open>
  \<open>FixedProportion, FixedSize, CrossValidation, Bootstrap = range(4)\<close> and
  \<open>SqlTime, SqlProportion = range(2)\<close>.
\<close>

definition FixedProportion :: nat where "FixedProportion = 0"
definition FixedSize :: nat where "FixedSize = 1"
definition CrossValidation :: nat where "CrossValidation = 2"
definition Bootstrap :: nat where "Bootstrap = 3"
definition SqlProportion :: nat where "SqlProportion = 1"

text \<open>
  What the samplers return: a pair of index arrays (\<open>remaining, sample\<close>), or for the
  folds a tuple of such pairs.
\<close>

datatype sample_indices = Pair_of "nat list" "nat list" | Folds "(nat list \<times> nat list) list"

datatype sampler_error = too_many_folds | sample_larger_than_data | not_enough_to_stratify | no_data

datatype sampler_warning = could_not_stratify | bigger_sample

text \<open>
  The widget: the input, the indices computed last, the settings, the counts for the
  report, the errors and warnings shown, and the values sent, oldest first, as pairs of
  channel and value (the channel names of the source are the Chinese for "Data Sample"
  and "Remaining Data").
\<close>

record 'row OWDataSampler =
  ds_data :: "'row dataset option"
  indices :: "sample_indices option"
  use_seed :: bool
  replacement :: bool
  stratify :: bool
  sql_dl :: bool
  sampling_type :: nat
  sampleSizeNumber :: nat
  sampleSizePercentage :: nat
  number_of_folds :: nat
  selectedFold :: int
  compatibility_mode :: bool
  sampled_instances :: "nat option"
  remaining_instances :: "nat option"
  ds_errors :: "sampler_error list"
  ds_warnings :: "sampler_warning list"
  ds_sent :: "(string \<times> 'row list option) list"

definition Error_active :: "'row OWDataSampler \<Rightarrow> bool" where
  "Error_active w \<longleftrightarrow> ds_errors w \<noteq> []"

text \<open>
  The first part of \<open>updateindices\<close>, up to the test of \<open>self.Error.active\<close>: the errors
  and warnings are cleared, then \<open>repl\<close> and \<open>size\<close> are set by the sampling type and
  the errors are raised. \<open>np.ceil\<close> of the proportion is taken over the rationals. The
  result is the widget with its errors, \<open>repl\<close> and \<open>size\<close>; the \<open>assert\<close> of the last
  branch can fail.
\<close>

definition check_sampling ::
  "'row dataset \<Rightarrow> 'row OWDataSampler \<Rightarrow> py_exception + 'row OWDataSampler \<times> bool \<times> nat option" where
  "check_sampling d w =
     (let w0 = w\<lparr>ds_errors := [], ds_warnings := []\<rparr>;
          data_length = length (ds_rows d);
          num_classes = (case ds_class_values d of Some n \<Rightarrow> n | None \<Rightarrow> 0)
      in if \<not> (data_length = 0 \<or> sampling_type w0 = FixedSize \<or> sampling_type w0 = FixedProportion
                \<or> sampling_type w0 = CrossValidation \<or> sampling_type w0 = Bootstrap)
         then Inl AssertionError
         else
           let (w1, repl, size') =
                 (if data_length = 0 then (w0\<lparr>ds_errors := [no_data]\<rparr>, True, None)
                  else if sampling_type w0 = FixedSize
                    then (w0, replacement w0, Some (sampleSizeNumber w0))
                  else if sampling_type w0 = FixedProportion
                    then (w0, False,
                          Some (nat \<lceil>(of_nat (sampleSizePercentage w0) / 100 * of_nat data_length :: rat)\<rceil>))
                  else if sampling_type w0 = CrossValidation
                    then (if data_length < number_of_folds w0
                          then (w0\<lparr>ds_errors := [too_many_folds]\<rparr>, True, None)
                          else (w0, True, None))
                  else (w0, True, None));
               w2 = (if \<not> repl \<and> size' \<noteq> None \<and> the size' > data_length
                     then w1\<lparr>ds_errors := ds_errors w1 @ [sample_larger_than_data]\<rparr> else w1);
               w3 = (if \<not> repl \<and> data_length \<le> num_classes \<and> stratify w2
                     then w2\<lparr>ds_errors := ds_errors w2 @ [not_enough_to_stratify]\<rparr> else w2)
           in Inr (w3, repl, size'))"

text \<open>
  \<open>updateindices\<close>. With an active error the indices become \<open>None\<close> and the function
  returns. Otherwise it samples; the method \<open>sample\<close>, which draws with numpy's and
  scikit-learn's random generators, is a parameter: from the widget, the length, the
  size and \<open>stratified\<close> it raises or gives the indices. A \<open>ValueError\<close> of the first
  call is caught, and the function samples again without stratification.
\<close>

definition updateindices ::
  "('row OWDataSampler \<Rightarrow> nat \<Rightarrow> nat option \<Rightarrow> bool \<Rightarrow> py_exception + sample_indices)
     \<Rightarrow> 'row dataset \<Rightarrow> 'row OWDataSampler \<Rightarrow> py_exception + 'row OWDataSampler" where
  "updateindices sample d w =
     (case check_sampling d w of
        Inl e \<Rightarrow> Inl e
      | Inr (w3, repl, size') \<Rightarrow>
          if Error_active w3 then Inr (w3\<lparr>indices := None\<rparr>)
          else
            let data_length = length (ds_rows d);
                w4 = (if sampling_type w3 = FixedSize \<and> repl \<and> size' \<noteq> None \<and> the size' \<noteq> 0
                         \<and> the size' > data_length
                      then w3\<lparr>ds_warnings := ds_warnings w3 @ [bigger_sample]\<rparr> else w3);
                stratified = (stratify w4 \<and> ds_class_values d \<noteq> None)
            in (case sample w4 data_length size' stratified of
                  Inr ind \<Rightarrow> Inr (w4\<lparr>indices := Some ind\<rparr>)
                | Inl (ValueError msg) \<Rightarrow>
                    let w5 = w4\<lparr>ds_warnings := ds_warnings w4 @ [could_not_stratify]\<rparr>
                    in (case sample w5 data_length size' False of
                          Inr ind \<Rightarrow> Inr (w5\<lparr>indices := Some ind\<rparr>)
                        | Inl e \<Rightarrow> Inl e)
                | Inl e \<Rightarrow> Inl e))"

text \<open>\<open>self.data[ind]\<close> with an index array.\<close>

definition rows_at :: "'row list \<Rightarrow> nat list \<Rightarrow> py_exception + 'row list" where
  "rows_at rs ind =
     (if list_all (\<lambda>i. i < length rs) ind then Inr (map (\<lambda>i. rs ! i) ind) else Inl IndexError)"

text \<open>
  The choice of \<open>sample\<close> and \<open>remaining\<close> from the indices in \<open>commit\<close>. Indices that
  do not have the shape of the sampling type cannot be unpacked.
\<close>

definition choose_indices ::
  "'row OWDataSampler \<Rightarrow> sample_indices \<Rightarrow> py_exception + nat list \<times> nat list" where
  "choose_indices w ind =
     (if sampling_type w = FixedProportion \<or> sampling_type w = FixedSize
         \<or> sampling_type w = Bootstrap
      then (case ind of Pair_of remaining sample \<Rightarrow> Inr (sample, remaining)
                      | Folds fs \<Rightarrow> Inl (ValueError []))
      else if sampling_type w = CrossValidation
      then (case ind of
              Pair_of remaining sample \<Rightarrow> Inl (ValueError [])
            | Folds fs \<Rightarrow>
                (case py_getitem fs (selectedFold w - 1) of
                   Inl e \<Rightarrow> Inl e
                 | Inr (a, b) \<Rightarrow> if compatibility_mode w then Inr (b, a) else Inr (a, b)))
      else Inl OtherError)"

text \<open>
  \<open>commit\<close>. Without data it sends \<open>None\<close> twice. For an \<open>SqlTable\<close> the sample comes
  from the database (the parameter \<open>sql_sample\<close>). Otherwise the indices are computed
  anew if there are none or the seed is not used, and the function returns at once if
  there still are none; else it sends the two parts of the data.
\<close>

definition OWDataSampler_commit ::
  "('row OWDataSampler \<Rightarrow> nat \<Rightarrow> nat option \<Rightarrow> bool \<Rightarrow> py_exception + sample_indices)
     \<Rightarrow> ('row OWDataSampler \<Rightarrow> 'row dataset \<Rightarrow> 'row list)
     \<Rightarrow> 'row OWDataSampler \<Rightarrow> py_exception + 'row OWDataSampler" where
  "OWDataSampler_commit sample sql_sample w =
     (case ds_data w of
        None \<Rightarrow>
          Inr (w\<lparr>sampled_instances := None, remaining_instances := None,
                 ds_sent := ds_sent w @ [(''Data Sample'', None), (''Remaining Data'', None)]\<rparr>)
      | Some d \<Rightarrow>
          if ds_is_sql d
          then Inr (w\<lparr>ds_sent := ds_sent w @
                      [(''Data Sample'', Some (sql_sample w d)), (''Remaining Data'', None)]\<rparr>)
          else
            (case (if indices w = None \<or> \<not> use_seed w then updateindices sample d w else Inr w) of
               Inl e \<Rightarrow> Inl e
             | Inr w1 \<Rightarrow>
                 (case indices w1 of
                    None \<Rightarrow> Inr w1
                  | Some ind \<Rightarrow>
                      (case choose_indices w1 ind of
                         Inl e \<Rightarrow> Inl e
                       | Inr (sample_ind, remaining_ind) \<Rightarrow>
                           (case rows_at (ds_rows d) sample_ind of
                              Inl e \<Rightarrow> Inl e
                            | Inr sample' \<Rightarrow>
                                (case rows_at (ds_rows d) remaining_ind of
                                   Inl e \<Rightarrow> Inl e
                                 | Inr other \<Rightarrow>
                                     Inr (w1\<lparr>sampled_instances := Some (length sample'),
                                            remaining_instances := Some (length other),
                                            ds_sent := ds_sent w1 @
                                              [(''Data Sample'', Some sample'),
                                               (''Remaining Data'', Some other)]\<rparr>)))))))"

text \<open>
  \<open>set_data\<close>, the handler of the input; the changes to the visibility of the controls
  and to the maximum of the size spin box are not modelled.
\<close>

definition OWDataSampler_set_data ::
  "('row OWDataSampler \<Rightarrow> nat \<Rightarrow> nat option \<Rightarrow> bool \<Rightarrow> py_exception + sample_indices)
     \<Rightarrow> ('row OWDataSampler \<Rightarrow> 'row dataset \<Rightarrow> 'row list)
     \<Rightarrow> 'row dataset option \<Rightarrow> 'row OWDataSampler \<Rightarrow> py_exception + 'row OWDataSampler" where
  "OWDataSampler_set_data sample sql_sample dataset w =
     (let w0 = w\<lparr>ds_data := dataset\<rparr>
      in case dataset of
           None \<Rightarrow>
             OWDataSampler_commit sample sql_sample
               (w0\<lparr>indices := None, ds_errors := [], ds_warnings := []\<rparr>)
         | Some d \<Rightarrow>
             if ds_is_sql d then OWDataSampler_commit sample sql_sample w0
             else (case updateindices sample d w0 of
                     Inl e \<Rightarrow> Inl e
                   | Inr w1 \<Rightarrow> OWDataSampler_commit sample sql_sample w1))"

section \<open>Example inputs\<close>

text \<open>
  Small inputs for the instances below: a table of two rows, a learner whose model marks
  the first row as an inlier and the second as an outlier (each reporting progress once),
  a distance that reports progress once, a projector call that always moves the anchors
  (by more than the tolerance of \<open>allclose\<close>), one that never moves them, and a
  projector with a single anchor coordinate.
\<close>

definition two_rows :: "nat table" where
  "two_rows = \<lparr>rows = [10, 20], n_attributes = 1\<rparr>"

definition example_learner :: "nat learner" where
  "example_learner =
     (\<lambda>d. Report (1 / 2)
        (Return (\<lambda>d'. Report (1 / 2) (Return \<lparr>pred_table = d', outlier_column = [1, 0]\<rparr>))))"

definition example_metric :: "(nat table, nat) metric" where
  "example_metric =
     \<lparr>supports_normalization = True,
      compute = (\<lambda>d kw. Report 50 (Return (length (rows d))))\<rparr>"

definition moving_fit :: "unit \<Rightarrow> projector \<Rightarrow> nat list \<Rightarrow> py_exception + anchors \<times> nat \<times> nat list" where
  "moving_fit d p s =
     Inr ([[2 * sum_list (map (\<lambda>r. sum_list (map abs r)) (components_T p)) + 1]], 0, s @ [0])"

definition still_fit :: "unit \<Rightarrow> projector \<Rightarrow> nat list \<Rightarrow> py_exception + anchors \<times> nat \<times> nat list" where
  "still_fit d p s = Inr (components_T p, 0, s @ [0])"

definition example_projector :: projector where
  "example_projector = \<lparr>initial = [[0]], components_T = [[0]]\<rparr>"

text \<open>
  A sampler widget that is asked for five instances without replacement, a sampling
  method that returns no indices at all, and a database sample that is never taken.
\<close>

definition example_sampler :: "nat OWDataSampler" where
  "example_sampler =
     \<lparr>ds_data = None, indices = None, use_seed = True, replacement = False, stratify = False,
      sql_dl = False, sampling_type = FixedSize, sampleSizeNumber = 5, sampleSizePercentage = 70,
      number_of_folds = 10, selectedFold = 1, compatibility_mode = False,
      sampled_instances = None, remaining_instances = None, ds_errors = [], ds_warnings = [],
      ds_sent = [(''Data Sample'', Some [7]), (''Remaining Data'', Some [8])]\<rparr>"

definition example_sample :: "nat OWDataSampler \<Rightarrow> nat \<Rightarrow> nat option \<Rightarrow> bool \<Rightarrow> py_exception + sample_indices" where
  "example_sample w n size' stratified = Inr (Pair_of [] [])"

definition example_sql_sample :: "nat OWDataSampler \<Rightarrow> nat dataset \<Rightarrow> nat list" where
  "example_sql_sample w d = []"

definition example_dataset :: "nat dataset" where
  "example_dataset = \<lparr>ds_rows = [10, 20], ds_class_values = None, ds_is_sql = False\<rparr>"








chapter \<open>Properties\<close>

section \<open>Migration of the Distances settings\<close>

lemmas metric_ids =
  Euclidean_def EuclideanNormalized_def Manhattan_def ManhattanNormalized_def Cosine_def
  Mahalanobis_def Hamming_def Pearson_def PearsonAbsolute_def Spearman_def
  SpearmanAbsolute_def Jaccard_def

lemma old_metric_ids_lookup:
  assumes "0 \<le> i" and "i \<le> 10"
  shows "py_getitem old_metric_ids i = Inr (old_metric_ids ! nat i)"
  using assms by (simp add: py_getitem_def old_metric_ids_def)

lemma spec_index_v3_range:
  assumes "0 \<le> i" and "i \<le> 10"
  shows "0 \<le> spec_index_v3 ver i \<and> spec_index_v3 ver i \<le> 10"
  using assms by (simp add: spec_index_v3_def)

lemma block3_spec:
  assumes "settings ''metric_idx'' = Some (PInt i)"
  shows "migrate_block3 (migrate_block2 settings (Some ver)) (Some ver) =
     Inr ((migrate_block2 settings (Some ver))(''metric_idx'' \<mapsto> PInt (spec_index_v3 ver i)))"
  using assms
  by (auto simp: migrate_block3_def migrate_block2_def spec_index_v3_def fun_upd_idem)

lemma block2_normalized:
  "(case (migrate_block2 settings (Some ver)) ''normalized_dist'' of
      None \<Rightarrow> False | Some b \<Rightarrow> truthy b) = spec_normalized settings"
  by (auto simp: migrate_block2_def spec_normalized_def split: option.splits)

text \<open>
  The old indices name these metrics, under a version before 3 and under version 3:
  the same metric at both, with Mahalanobis moved from 2 to 9.
\<close>

lemma old_indices_before_v3:
  "map (\<lambda>i. old_metric_ids ! nat (spec_index_v3 2 i)) [0, 1, 2, 3, 4, 5, 6, 7, 8, 9, 10] =
     [Euclidean, Manhattan, Mahalanobis, Cosine, Jaccard, Spearman, SpearmanAbsolute,
      Pearson, PearsonAbsolute, Hamming, Euclidean]"
  by (simp add: spec_index_v3_def old_metric_ids_def)

text \<open>
  Under a version number, \<open>OWDistances.migrate_settings\<close> does what the specification
  describes. For a settings dictionary saved under a version number below 4 that holds a metric
  index from 0 to 10, the result has neither \<open>metric_idx\<close> nor \<open>normalized_dist\<close>, keeps
  every other key, and holds as \<open>metric_id\<close> the id that the index denotes: below
  version 3 the index 2 is first read as 9 and the indices 3 to 9 as one less; a set
  \<open>normalized_dist\<close> turns Euclidean and Manhattan into their normalized variants and
  changes no other metric.
\<close>

lemma migrate_settings_refines_spec:
  assumes idx: "settings ''metric_idx'' = Some (PInt i)"
    and lo: "0 \<le> i" and hi: "i \<le> 10" and old: "ver < 4"
  shows "migrate_settings settings (Some ver) =
     Inr ((settings(''metric_idx'' := None, ''normalized_dist'' := None))
            (''metric_id'' \<mapsto>
               PInt (spec_upgrade (spec_normalized settings)
                       (old_metric_ids ! nat (spec_index_v3 ver i)))))"
proof -
  let ?s2 = "migrate_block2 settings (Some ver)"
  let ?j = "spec_index_v3 ver i"
  have b3: "migrate_block3 ?s2 (Some ver) = Inr (?s2(''metric_idx'' \<mapsto> PInt ?j))"
    using idx by (rule block3_spec)
  have rng: "0 \<le> ?j \<and> ?j \<le> 10" using lo hi by (rule spec_index_v3_range)
  then have look: "py_getitem old_metric_ids ?j = Inr (old_metric_ids ! nat ?j)"
    by (simp add: old_metric_ids_lookup)
  have up: "\<And>b m. (if b then normalized_variant m else m) = spec_upgrade b m"
    by (simp add: normalized_variant_def spec_upgrade_def)
  have nd: "(case ?s2 ''normalized_dist'' of None \<Rightarrow> False | Some b \<Rightarrow> truthy b)
              = spec_normalized settings"
    by (rule block2_normalized)
  have pop: "?s2(''metric_idx'' := None, ''normalized_dist'' := None)
           = settings(''metric_idx'' := None, ''normalized_dist'' := None)"
    by (auto simp: migrate_block2_def fun_eq_iff)
  show ?thesis
    unfolding migrate_settings_def b3
    using old look nd pop
    by (simp add: migrate_block4_def Let_def up)
qed

lemma migrate_settings_refines_spec_example:
  "migrate_settings [''metric_idx'' \<mapsto> PInt 2, ''normalized_dist'' \<mapsto> PBool True] (Some 2)
     = Inr [''metric_id'' \<mapsto> PInt Mahalanobis]
   \<and> migrate_settings [''metric_idx'' \<mapsto> PInt 1, ''normalized_dist'' \<mapsto> PBool True] (Some 3)
     = Inr [''metric_id'' \<mapsto> PInt ManhattanNormalized]"
  using migrate_settings_refines_spec
      [of "[''metric_idx'' \<mapsto> PInt 2, ''normalized_dist'' \<mapsto> PBool True]" 2 2]
    migrate_settings_refines_spec
      [of "[''metric_idx'' \<mapsto> PInt 1, ''normalized_dist'' \<mapsto> PBool True]" 1 3]
  by (simp add: spec_upgrade_def spec_normalized_def spec_index_v3_def old_metric_ids_def
      metric_ids fun_eq_iff)

text \<open>
  Where the migrations fail. The guards of the first two blocks of the Distances
  migration take a version \<open>None\<close> for an older version, but the comparison of the last
  block raises for it: no dictionary without a version is migrated.
\<close>

lemma migrate_settings_None:
  "migrate_settings settings None = Inl TypeError \<or> migrate_settings settings None = Inl KeyError"
  by (auto simp: migrate_settings_def migrate_block2_def migrate_block3_def migrate_block4_def
      Let_def split: option.splits)

text \<open>
  C7, the failing inputs. A dictionary saved without a version, whose metric index 2 the
  first blocks have already turned into 9, ends in \<open>TypeError\<close>. In the Manifold Learning
  migration the indices are clamped to the length of the shortened lists, not to their
  last position: the stored indices 2 (of two initializations) and 4 (of four metrics) are
  out of range when the editor reads them.
\<close>

theorem migrate_settings_fails_without_version:
  "migrate_settings [''metric_idx'' \<mapsto> PInt 2] None = Inl TypeError
   \<and> migrate_block3 (migrate_block2 [''metric_idx'' \<mapsto> PInt 2] None) None
       = Inr [''metric_idx'' \<mapsto> PInt 9, ''normalized_dist'' \<mapsto> PBool False]
   \<and> manifold_migrate_settings
         [''tsne_editor'' \<mapsto> [''init_index'' \<mapsto> 2, ''metric_index'' \<mapsto> 5]] (Some 1)
       = Inr [''tsne_editor'' \<mapsto> [''initialization_index'' \<mapsto> 2, ''metric_index'' \<mapsto> 4]]
   \<and> parameter_of_index initialization_values 2 = Inl IndexError
   \<and> parameter_of_index metric_values 4 = Inl IndexError"
proof -
  have 1: "migrate_block3 (migrate_block2 [''metric_idx'' \<mapsto> PInt 2] None) None
       = Inr [''metric_idx'' \<mapsto> PInt 9, ''normalized_dist'' \<mapsto> PBool False]"
    by (auto simp: migrate_block2_def migrate_block3_def fun_eq_iff)
  have 2: "migrate_settings [''metric_idx'' \<mapsto> PInt 2] None = Inl TypeError"
    unfolding migrate_settings_def 1 by (simp add: migrate_block4_def)
  have 3: "manifold_migrate_settings
         [''tsne_editor'' \<mapsto> [''init_index'' \<mapsto> 2, ''metric_index'' \<mapsto> 5]] (Some 1)
       = Inr [''tsne_editor'' \<mapsto> [''initialization_index'' \<mapsto> 2, ''metric_index'' \<mapsto> 4]]"
    by (auto simp: manifold_migrate_settings_def initialization_values_def metric_values_def
        Let_def fun_eq_iff)
  have 4: "parameter_of_index initialization_values 2 = Inl IndexError"
    "parameter_of_index metric_values 4 = Inl IndexError"
    by (simp_all add: parameter_of_index_def py_getitem_def initialization_values_def
        metric_values_def)
  from 1 2 3 4 show ?thesis by blast
qed

section \<open>Callbacks and interruption\<close>

text \<open>
  Both local callbacks ask once whether the task is interrupted, and raise exactly when
  the answer is yes.
\<close>

lemma outliers_callback_fst:
  "fst (outliers_callback req status_text p st) = (if req (polls st) then Some PyException else None)"
  by (simp add: outliers_callback_def is_interruption_requested_def set_progress_value_def
      set_status_def Let_def)

lemma outliers_callback_polls:
  "polls (snd (outliers_callback req status_text p st)) = Suc (polls st)"
  by (simp add: outliers_callback_def is_interruption_requested_def set_progress_value_def
      set_status_def Let_def)

lemma distance_callback_fst:
  "fst (distance_callback req p st) = (if req (polls st) then Some InterruptException else None)"
  by (simp add: distance_callback_def is_interruption_requested_def set_progress_value_def Let_def)

lemma distance_callback_polls:
  "polls (snd (distance_callback req p st)) = Suc (polls st)"
  by (simp add: distance_callback_def is_interruption_requested_def set_progress_value_def Let_def)

text \<open>
  A library computation run with such a callback: the polls only grow, and a poll that
  was answered with yes is the last one, the computation ending with the callback's
  exception.
\<close>

lemma run_job_polls:
  assumes cbp: "\<And>p st. polls (snd (cb p st)) = Suc (polls st)"
    and run: "run_job cb j st = (res, st')"
  shows "polls st \<le> polls st'"
  using run
proof (induction j arbitrary: st)
  case (Report p j)
  obtain eo st1 where c: "cb p st = (eo, st1)" by (cases "cb p st")
  with cbp [of p st] have s1: "polls st1 = Suc (polls st)" by simp
  show ?case
  proof (cases eo)
    case None
    with c Report.prems have "run_job cb j st1 = (res, st')" by simp
    from Report.IH [OF this] s1 show ?thesis by simp
  next
    case (Some e)
    with c Report.prems s1 show ?thesis by auto
  qed
qed auto

lemma run_job_interrupted:
  assumes cbf: "\<And>p st. fst (cb p st) = (if req (polls st) then Some e else None)"
    and cbp: "\<And>p st. polls (snd (cb p st)) = Suc (polls st)"
    and run: "run_job cb j st = (res, st')"
    and k: "polls st \<le> k" "k < polls st'" "req k"
  shows "res = Inl e \<and> polls st' = Suc k"
  using run k
proof (induction j arbitrary: st)
  case (Return x)
  then show ?case by simp
next
  case (Raise x)
  then show ?case by simp
next
  case (Report p j)
  obtain eo st1 where c: "cb p st = (eo, st1)" by (cases "cb p st")
  from cbp [of p st] c have s1: "polls st1 = Suc (polls st)" by simp
  from cbf [of p st] c have eo: "eo = (if req (polls st) then Some e else None)" by simp
  show ?case
  proof (cases "req (polls st)")
    case True
    with eo c Report.prems(1) have r: "res = Inl e" "st' = st1" by auto
    have "k = polls st"
      using Report.prems r s1 by simp
    with r s1 show ?thesis by simp
  next
    case False
    with eo c Report.prems(1) have r: "run_job cb j st1 = (res, st')" by simp
    from False Report.prems have "polls st \<noteq> k" by auto
    with Report.prems s1 have "polls st1 \<le> k" by simp
    from Report.IH [OF r this Report.prems(3,4)] show ?thesis .
  qed
qed

lemma run_job_not_interrupted:
  assumes cbf: "\<And>p st. fst (cb p st) = (if req (polls st) then Some e else None)"
    and cbp: "\<And>p st. polls (snd (cb p st)) = Suc (polls st)"
    and never: "\<And>k. \<not> req k"
  shows "fst (run_job cb j st) = job_result j"
proof (induction j arbitrary: st)
  case (Report p j)
  obtain eo st1 where c: "cb p st = (eo, st1)" by (cases "cb p st")
  from cbf [of p st] c never have "eo = None" by simp
  with c Report.IH [of st1] show ?case by simp
qed auto

lemma run_interrupted:
  assumes run: "run data learner req st = (res, st')"
    and k: "polls st \<le> k" "k < polls st'" "req k"
  shows "res = Inl PyException \<and> polls st' = Suc k"
proof (cases data)
  case None
  with run k show ?thesis by (simp add: run_def)
next
  case (Some d)
  let ?cb = "outliers_callback req []"
  have w1: "\<And>a b p st. fst (wrap_callback ?cb a b p st) = (if req (polls st) then Some PyException else None)"
    by (simp add: wrap_callback_def outliers_callback_fst)
  have w2: "\<And>a b p st. polls (snd (wrap_callback ?cb a b p st)) = Suc (polls st)"
    by (simp add: wrap_callback_def outliers_callback_polls)
  show ?thesis
  proof (cases "rows d = []")
    case True
    with Some run k show ?thesis by (simp add: run_def)
  next
    case False
    obtain e0 st1 where c0: "outliers_callback req ''Initializing...'' 0 st = (e0, st1)"
      by (cases "outliers_callback req ''Initializing...'' 0 st")
    from outliers_callback_polls [of req "''Initializing...''" 0 st] c0
    have p1: "polls st1 = Suc (polls st)" by simp
    from outliers_callback_fst [of req "''Initializing...''" 0 st] c0
    have f1: "e0 = (if req (polls st) then Some PyException else None)" by simp
    show ?thesis
    proof (cases "req (polls st)")
      case True
      with f1 c0 run Some False have r: "res = Inl PyException" "st' = st1"
        by (simp_all add: run_def)
      with k p1 have "k = polls st" by simp
      with r p1 show ?thesis by simp
    next
      case n0: False
      with k have "k \<noteq> polls st" by auto
      with k p1 have k1: "polls st1 \<le> k" by simp
      obtain r2 st2 where c2: "run_job (wrap_callback ?cb 0 (6 / 10)) (learner d) st1 = (r2, st2)"
        by (cases "run_job (wrap_callback ?cb 0 (6 / 10)) (learner d) st1")
      note i2 = run_job_interrupted [of "wrap_callback ?cb 0 (6 / 10)" req PyException,
          OF w1 w2 c2 k1 _ k(3)]
      note m2 = run_job_polls [of "wrap_callback ?cb 0 (6 / 10)", OF w2 c2]
      show ?thesis
      proof (cases r2)
        case (Inl e)
        with f1 n0 c0 c2 run Some False have r: "res = Inl e" "st' = st2"
          by (simp_all add: run_def)
        with i2 k Inl show ?thesis by simp
      next
        case (Inr model)
        have k2: "polls st2 \<le> k"
        proof (rule ccontr)
          assume "\<not> polls st2 \<le> k"
          then have "k < polls st2" by simp
          from i2 [OF this] Inr show False by simp
        qed
        obtain r3 st3 where
          c3: "run_job (wrap_callback ?cb (6 / 10) (99 / 100)) (model d) st2 = (r3, st3)"
          by (cases "run_job (wrap_callback ?cb (6 / 10) (99 / 100)) (model d) st2")
        note i3 = run_job_interrupted [of "wrap_callback ?cb (6 / 10) (99 / 100)" req PyException,
            OF w1 w2 c3 k2 _ k(3)]
        show ?thesis
        proof (cases r3)
          case (Inl e)
          with f1 n0 c0 c2 \<open>r2 = Inr model\<close> c3 run Some False have r: "res = Inl e" "st' = st3"
            by (simp_all add: run_def)
          with i3 k Inl show ?thesis by simp
        next
          case (Inr pred)
          have k3: "polls st3 \<le> k"
          proof (rule ccontr)
            assume "\<not> polls st3 \<le> k"
            then have "k < polls st3" by simp
            from i3 [OF this] Inr show False by simp
          qed
          obtain e4 st4 where c4: "outliers_callback req [] 1 st3 = (e4, st4)"
            by (cases "outliers_callback req [] 1 st3")
          from outliers_callback_polls [of req "[]" 1 st3] c4
          have p4: "polls st4 = Suc (polls st3)" by simp
          from outliers_callback_fst [of req "[]" 1 st3] c4
          have f4: "e4 = (if req (polls st3) then Some PyException else None)" by simp
          from f1 n0 c0 c2 \<open>r2 = Inr model\<close> c3 Inr c4 run Some False
          have "st' = st3 \<or> (st' = st4 \<and> res = (if req (polls st3) then Inl PyException else res))"
            by (auto simp: run_def Let_def f4 split: sum.splits if_splits)
          then show ?thesis
          proof
            assume "st' = st3"
            with k k3 show ?thesis by simp
          next
            assume a: "st' = st4 \<and> res = (if req (polls st3) then Inl PyException else res)"
            with k k3 p4 have "k = polls st3" by simp
            with a k p4 show ?thesis by simp
          qed
        qed
      qed
    qed
  qed
qed

lemma DistanceRunner_run_interrupted:
  assumes run: "DistanceRunner_run data metric normalized_dist ax req st = (res, st')"
    and k: "polls st \<le> k" "k < polls st'" "req k"
  shows "res = Inl InterruptException \<and> polls st' = Suc k"
proof (cases data)
  case None
  with run k show ?thesis by (simp add: DistanceRunner_run_def)
next
  case (Some d)
  let ?st1 = "set_status ''Calculating...'' st"
  have p: "polls ?st1 = polls st" by (simp add: set_status_def)
  from Some run obtain kw r where
    j: "run_job (distance_callback req) (compute metric d kw) ?st1 = (r, st')"
    and r: "res = (case r of Inl e \<Rightarrow> Inl e | Inr m \<Rightarrow> Inr (Some m))"
    by (auto simp: DistanceRunner_run_def Let_def split: prod.splits sum.splits)
  from run_job_interrupted [of "distance_callback req" req InterruptException,
      OF distance_callback_fst distance_callback_polls j] k p
  have "r = Inl InterruptException \<and> polls st' = Suc k" by simp
  with r show ?thesis by simp
qed

section \<open>The FreeViz loop\<close>

declare freeviz_loop.simps(2) [simp del]

lemma freeviz_loop_raise:
  "fit data (res_projector res) store = Inl e \<Longrightarrow>
   freeviz_loop (Suc fuel) fit req data res step init store st = Some (Inl e, store, st)"
  by (simp add: freeviz_loop.simps(2))

text \<open>One iteration, when the projector returns: the three ways it ends.\<close>

lemma freeviz_loop_step:
  assumes "fit data (res_projector res) store = Inr (a, m, s1)"
  defines "res1 \<equiv> \<lparr>res_projector = \<lparr>initial = a, components_T = a\<rparr>, res_projection = Some (length s1)\<rparr>"
  shows "freeviz_loop (Suc fuel) fit req data res step init store st =
     (if allclose init a then Some (Inr res1, s1 @ [s1 ! m], set_partial_result res1 st)
      else if req (polls st)
      then Some (Inr res1, s1 @ [s1 ! m],
                 (set_progress_value (100 * of_nat (Suc step) / of_nat MAX_ITERATIONS)
                    (set_partial_result res1 st))\<lparr>polls := Suc (polls st)\<rparr>)
      else freeviz_loop fuel fit req data res1 (Suc step) a (s1 @ [s1 ! m])
             ((set_progress_value (100 * of_nat (Suc step) / of_nat MAX_ITERATIONS)
                    (set_partial_result res1 st))\<lparr>polls := Suc (polls st)\<rparr>))"
  using assms(1) unfolding res1_def
  by (simp add: copy_def Let_def is_interruption_requested_def set_progress_value_def
      set_partial_result_def freeviz_loop.simps(2))

lemma freeviz_loop_facts:
  assumes "freeviz_loop fuel fit req data res step init store st = Some (out, store', st')"
  shows "polls st \<le> polls st'
    \<and> (\<exists>new. partial_results st' = partial_results st @ new
          \<and> (case out of
                Inl e \<Rightarrow> length new = polls st' - polls st
              | Inr r \<Rightarrow> new \<noteq> [] \<and> last new = r
                  \<and> Suc (polls st' - polls st) =
                      length new + (if polls st < polls st' \<and> req (polls st' - 1) then 1 else 0)))
    \<and> (\<forall>k. polls st \<le> k \<and> k < polls st' \<and> req k \<longrightarrow> polls st' = Suc k \<and> (\<exists>r. out = Inr r))"
  using assms
proof (induction fuel arbitrary: res step init store st)
  case 0
  then show ?case by simp
next
  case (Suc fuel)
  show ?case
  proof (cases "fit data (res_projector res) store")
    case (Inl e)
    from Suc.prems freeviz_loop_raise [where fit = fit and data = data, OF Inl, of fuel req step init st]
    have "out = Inl e" "st' = st" by simp_all
    then show ?thesis by simp
  next
    case (Inr t)
    obtain a m s1 where t: "fit data (res_projector res) store = Inr (a, m, s1)"
      using Inr by (cases t) simp
    define res1 where "res1 = \<lparr>res_projector = \<lparr>initial = a, components_T = a\<rparr>, res_projection = Some (length s1)\<rparr>"
    define st2 where "st2 = (set_progress_value (100 * of_nat (Suc step) / of_nat MAX_ITERATIONS)
                    (set_partial_result res1 st))\<lparr>polls := Suc (polls st)\<rparr>"
    note step = freeviz_loop_step [where fit = fit and data = data, OF t, of fuel req step init st, folded res1_def, folded st2_def]
    have p2: "polls st2 = Suc (polls st)" by (simp add: st2_def)
    have r2: "partial_results st2 = partial_results st @ [res1]"
      by (simp add: st2_def set_progress_value_def set_partial_result_def)
    show ?thesis
    proof (cases "allclose init a")
      case True
      with Suc.prems step have "out = Inr res1" "st' = set_partial_result res1 st" by simp_all
      then show ?thesis by (simp add: set_partial_result_def)
    next
      case False
      show ?thesis
      proof (cases "req (polls st)")
        case True
        with False Suc.prems step have "out = Inr res1" "st' = st2" by simp_all
        with p2 r2 True show ?thesis by auto
      next
        case nreq: False
        with False Suc.prems step have
          rec: "freeviz_loop fuel fit req data res1 (Suc step) a (s1 @ [s1 ! m]) st2 = Some (out, store', st')"
          by simp
        from Suc.IH [OF rec] obtain new where
          mono: "polls st2 \<le> polls st'"
          and new: "partial_results st' = partial_results st2 @ new"
          and out: "(case out of
                Inl e \<Rightarrow> length new = polls st' - polls st2
              | Inr r \<Rightarrow> new \<noteq> [] \<and> last new = r
                  \<and> Suc (polls st' - polls st2) =
                      length new + (if polls st2 < polls st' \<and> req (polls st' - 1) then 1 else 0))"
          and intr: "\<forall>k. polls st2 \<le> k \<and> k < polls st' \<and> req k \<longrightarrow> polls st' = Suc k \<and> (\<exists>r. out = Inr r)"
          by blast
        have 1: "polls st \<le> polls st'" using mono p2 by simp
        have 2: "partial_results st' = partial_results st @ (res1 # new)"
          using new r2 by simp
        have 3: "(case out of
                Inl e \<Rightarrow> length (res1 # new) = polls st' - polls st
              | Inr r \<Rightarrow> (res1 # new) \<noteq> [] \<and> last (res1 # new) = r
                  \<and> Suc (polls st' - polls st) =
                      length (res1 # new) + (if polls st < polls st' \<and> req (polls st' - 1) then 1 else 0))"
        proof (cases out)
          case (Inl e)
          with out mono p2 show ?thesis by simp
        next
          case (Inr r)
          with out have o: "new \<noteq> []" "last new = r"
            "Suc (polls st' - polls st2) =
                      length new + (if polls st2 < polls st' \<and> req (polls st' - 1) then 1 else 0)"
            by simp_all
          have c: "(polls st < polls st' \<and> req (polls st' - 1)) = (polls st2 < polls st' \<and> req (polls st' - 1))"
          proof (cases "polls st' = polls st2")
            case True
            with p2 nreq show ?thesis by simp
          next
            case False
            with mono p2 show ?thesis by auto
          qed
          from o mono p2 have "Suc (polls st' - polls st) =
                      length (res1 # new) + (if polls st2 < polls st' \<and> req (polls st' - 1) then 1 else 0)"
            by simp
          with c o Inr show ?thesis by simp
        qed
        have 4: "\<forall>k. polls st \<le> k \<and> k < polls st' \<and> req k \<longrightarrow> polls st' = Suc k \<and> (\<exists>r. out = Inr r)"
        proof (intro allI impI)
          fix k assume k: "polls st \<le> k \<and> k < polls st' \<and> req k"
          with nreq have "k \<noteq> polls st" by auto
          with k p2 have "polls st2 \<le> k" by simp
          with k intr show "polls st' = Suc k \<and> (\<exists>r. out = Inr r)" by blast
        qed
        from 1 2 3 4 show ?thesis by blast
      qed
    qed
  qed
qed

lemma freeviz_loop_exits:
  assumes "freeviz_loop fuel fit req data res step init store st = Some (Inr r, store', st')"
    and "init = components_T (res_projector res)"
  shows "(polls st < polls st' \<and> req (polls st' - 1))
     \<or> (\<exists>p s a m s1. fit data p s = Inr (a, m, s1) \<and> allclose (components_T p) a
           \<and> res_projector r = \<lparr>initial = a, components_T = a\<rparr>)"
  using assms
proof (induction fuel arbitrary: res step init store st)
  case 0
  then show ?case by simp
next
  case (Suc fuel)
  show ?case
  proof (cases "fit data (res_projector res) store")
    case (Inl e)
    from Suc.prems freeviz_loop_raise [where fit = fit and data = data, OF Inl] show ?thesis by simp
  next
    case (Inr t)
    obtain a m s1 where t: "fit data (res_projector res) store = Inr (a, m, s1)"
      using Inr by (cases t) simp
    define res1 where "res1 = \<lparr>res_projector = \<lparr>initial = a, components_T = a\<rparr>, res_projection = Some (length s1)\<rparr>"
    define st2 where "st2 = (set_progress_value (100 * of_nat (Suc step) / of_nat MAX_ITERATIONS)
                    (set_partial_result res1 st))\<lparr>polls := Suc (polls st)\<rparr>"
    note step = freeviz_loop_step [where fit = fit and data = data, OF t, of fuel req step init st, folded res1_def, folded st2_def]
    have p2: "polls st2 = Suc (polls st)" by (simp add: st2_def)
    show ?thesis
    proof (cases "allclose init a")
      case True
      with Suc.prems(1) step have "r = res1" by simp
      with True t Suc.prems(2) show ?thesis unfolding res1_def by auto
    next
      case False
      show ?thesis
      proof (cases "req (polls st)")
        case True
        with False Suc.prems(1) step have "st' = st2" by simp
        with p2 True show ?thesis by simp
      next
        case nreq: False
        with False Suc.prems(1) step have
          rec: "freeviz_loop fuel fit req data res1 (Suc step) a (s1 @ [s1 ! m]) st2 = Some (Inr r, store', st')"
          by simp
        have inv: "a = components_T (res_projector res1)" by (simp add: res1_def)
        from Suc.IH [OF rec inv] p2 show ?thesis by auto
      qed
    qed
  qed
qed

lemma freeviz_loop_diverges:
  assumes mv: "\<forall>p s. \<exists>a m s1. fit data p s = Inr (a, m, s1) \<and> \<not> allclose (components_T p) a"
    and nreq: "\<forall>k. \<not> req k"
    and inv: "init = components_T (res_projector res)"
  shows "freeviz_loop fuel fit req data res step init store st = None"
  using inv
proof (induction fuel arbitrary: res step init store st)
  case 0
  then show ?case by simp
next
  case (Suc fuel)
  from mv obtain a m s1 where t: "fit data (res_projector res) store = Inr (a, m, s1)"
    and na: "\<not> allclose (components_T (res_projector res)) a" by blast
  define res1 where "res1 = \<lparr>res_projector = \<lparr>initial = a, components_T = a\<rparr>, res_projection = Some (length s1)\<rparr>"
  define st2 where "st2 = (set_progress_value (100 * of_nat (Suc step) / of_nat MAX_ITERATIONS)
                    (set_partial_result res1 st))\<lparr>polls := Suc (polls st)\<rparr>"
  note step = freeviz_loop_step [where fit = fit and data = data, OF t, of fuel req step init st, folded res1_def, folded st2_def]
  have "freeviz_loop (Suc fuel) fit req data res step init store st =
        freeviz_loop fuel fit req data res1 (Suc step) a (s1 @ [s1 ! m]) st2"
    using step Suc.prems na nreq by simp
  also have "\<dots> = None"
    by (rule Suc.IH) (simp add: res1_def)
  finally show ?case .
qed

lemma freeviz_loop_interrupt_at:
  assumes mv: "\<forall>p s. \<exists>a m s1. fit data p s = Inr (a, m, s1) \<and> \<not> allclose (components_T p) a"
    and inv: "init = components_T (res_projector res)"
    and before: "\<forall>k<j. \<not> req (polls st + k)"
    and at: "req (polls st + j)"
    and fuel: "j < fuel"
  shows "\<exists>r store' st'. freeviz_loop fuel fit req data res step init store st = Some (Inr r, store', st')
      \<and> progress_value st' = 100 * of_nat (step + j + 1) / of_nat MAX_ITERATIONS
      \<and> polls st' = polls st + j + 1
      \<and> length (partial_results st') = length (partial_results st) + j + 1"
  using inv before at fuel
proof (induction j arbitrary: fuel res step init store st)
  case 0
  then obtain f where f: "fuel = Suc f" by (cases fuel) auto
  from mv obtain a m s1 where t: "fit data (res_projector res) store = Inr (a, m, s1)"
    and na: "\<not> allclose (components_T (res_projector res)) a" by blast
  show ?case
    using 0 na unfolding f
    by (simp add: freeviz_loop_step [where fit = fit and data = data, OF t] set_progress_value_def set_partial_result_def)
next
  case (Suc j)
  then obtain f where f: "fuel = Suc f" and jf: "j < f" by (cases fuel) auto
  from mv obtain a m s1 where t: "fit data (res_projector res) store = Inr (a, m, s1)"
    and na: "\<not> allclose (components_T (res_projector res)) a" by blast
  define res1 where "res1 = \<lparr>res_projector = \<lparr>initial = a, components_T = a\<rparr>, res_projection = Some (length s1)\<rparr>"
  define st2 where "st2 = (set_progress_value (100 * of_nat (Suc step) / of_nat MAX_ITERATIONS)
                    (set_partial_result res1 st))\<lparr>polls := Suc (polls st)\<rparr>"
  note step = freeviz_loop_step [where fit = fit and data = data, OF t, of f req step init st, folded res1_def, folded st2_def]
  have p2: "polls st2 = Suc (polls st)" by (simp add: st2_def)
  have r2: "partial_results st2 = partial_results st @ [res1]"
    by (simp add: st2_def set_progress_value_def set_partial_result_def)
  from Suc.prems(2) have n0: "\<not> req (polls st)" by (metis add_0_right zero_less_Suc)
  have b: "\<forall>k<j. \<not> req (polls st2 + k)"
  proof (intro allI impI)
    fix k assume "k < j"
    then have "Suc k < Suc j" by simp
    with Suc.prems(2) have "\<not> req (polls st + Suc k)" by blast
    then show "\<not> req (polls st2 + k)" by (simp add: p2)
  qed
  have a2: "req (polls st2 + j)" using Suc.prems(3) by (simp add: p2)
  have inv2: "a = components_T (res_projector res1)" by (simp add: res1_def)
  from Suc.IH [OF inv2 b a2 jf, of "Suc step" "s1 @ [s1 ! m]"]
  obtain r store' st' where
    "freeviz_loop f fit req data res1 (Suc step) a (s1 @ [s1 ! m]) st2 = Some (Inr r, store', st')"
    "progress_value st' = 100 * of_nat (Suc step + j + 1) / of_nat MAX_ITERATIONS"
    "polls st' = polls st2 + j + 1"
    "length (partial_results st') = length (partial_results st2) + j + 1"
    by blast
  moreover have "freeviz_loop fuel fit req data res step init store st =
        freeviz_loop f fit req data res1 (Suc step) a (s1 @ [s1 ! m]) st2"
    using step Suc.prems(1) na n0 unfolding f by simp
  ultimately show ?case using p2 r2 by simp
qed

section \<open>Cooperative cancellation\<close>

lemma run_freeviz_interrupted:
  assumes run: "run_freeviz fuel fit req data p store st = Some (res, store', st')"
    and k: "polls st \<le> k" "k < polls st'" "req k"
  shows "polls st' = Suc k \<and> partial_results st' \<noteq> [] \<and> res = Inr (last (partial_results st'))
     \<and> length (partial_results st') = length (partial_results st) + (Suc k - polls st)"
proof -
  let ?st1 = "set_status ''Calculating...'' st"
  have p1: "polls ?st1 = polls st" and r1: "partial_results ?st1 = partial_results st"
    by (simp_all add: set_status_def)
  from run have loop: "freeviz_loop fuel fit req data \<lparr>res_projector = p, res_projection = None\<rparr>
      0 (components_T p) store ?st1 = Some (res, store', st')"
    by (simp add: run_freeviz_def Let_def)
  from freeviz_loop_facts [OF loop] obtain new where
    new: "partial_results st' = partial_results ?st1 @ new"
    and out: "(case res of
                Inl e \<Rightarrow> length new = polls st' - polls ?st1
              | Inr r \<Rightarrow> new \<noteq> [] \<and> last new = r
                  \<and> Suc (polls st' - polls ?st1) =
                      length new + (if polls ?st1 < polls st' \<and> req (polls st' - 1) then 1 else 0))"
    and intr: "\<forall>k. polls ?st1 \<le> k \<and> k < polls st' \<and> req k \<longrightarrow> polls st' = Suc k \<and> (\<exists>r. res = Inr r)"
    by blast
  from intr k p1 obtain r where s: "polls st' = Suc k" and r: "res = Inr r" by auto
  from out r have n: "new \<noteq> []" "last new = r"
    "Suc (polls st' - polls ?st1) =
        length new + (if polls ?st1 < polls st' \<and> req (polls st' - 1) then 1 else 0)"
    by simp_all
  from n(3) s k p1 have "length new = Suc k - polls st" by simp
  with new n r r1 s show ?thesis by simp
qed

text \<open>
  C2. Cancellation is cooperative. In each of the three task functions, if a question
  whether the task is interrupted is answered with yes (\<open>req k\<close> for a poll \<open>k\<close> that the
  run has made), that poll is the last step of the run: the outlier task ends with the
  exception of its callback, the distance task with \<open>InterruptException\<close>, and
  \<open>run_freeviz\<close> returns the result of the iteration just completed, which is the last
  partial result, having run as many iterations as it has made polls.
\<close>

theorem cancellation_is_cooperative:
  "(run data learner req st = (res, st') \<and> polls st \<le> k \<and> k < polls st' \<and> req k
      \<longrightarrow> res = Inl PyException \<and> polls st' = Suc k)
   \<and> (DistanceRunner_run ddata metric normalized_dist ax req dst = (dres, dst')
        \<and> polls dst \<le> k \<and> k < polls dst' \<and> req k
      \<longrightarrow> dres = Inl InterruptException \<and> polls dst' = Suc k)
   \<and> (run_freeviz fuel fit req fdata p store fvst = Some (fres, store', fvst')
        \<and> polls fvst \<le> k \<and> k < polls fvst' \<and> req k
      \<longrightarrow> polls fvst' = Suc k \<and> partial_results fvst' \<noteq> []
          \<and> fres = Inr (last (partial_results fvst'))
          \<and> length (partial_results fvst') = length (partial_results fvst) + (Suc k - polls fvst))"
  using run_interrupted [of data learner req st res st' k]
    DistanceRunner_run_interrupted [of ddata metric normalized_dist ax req dst dres dst' k]
    run_freeviz_interrupted [of fuel fit req fdata p store fvst fres store' fvst' k]
  by blast

lemma example_run_interrupted:
  "run (Some two_rows) example_learner (\<lambda>k. k = 1) (new_task_state :: unit task_state) =
     (Inl PyException, \<lparr>progress_value = 30, status = ''Initializing...'', polls = 2,
                        partial_results = []\<rparr>)"
  by (simp add: run_def two_rows_def example_learner_def new_task_state_def
      outliers_callback_def wrap_callback_def is_interruption_requested_def
      set_progress_value_def set_status_def Let_def)

lemma example_distance_interrupted:
  "DistanceRunner_run (Some two_rows) example_metric True 0 (\<lambda>k. k = 0)
       (new_task_state :: unit task_state) =
     (Inl InterruptException, \<lparr>progress_value = 50, status = ''Calculating...'', polls = 1,
                               partial_results = []\<rparr>)"
  by (simp add: DistanceRunner_run_def two_rows_def example_metric_def new_task_state_def
      distance_callback_def is_interruption_requested_def
      set_progress_value_def set_status_def Let_def)

lemma moving_fit_example:
  "moving_fit () example_projector [] = Inr ([[1]], 0, [0])"
  by (simp add: moving_fit_def example_projector_def)

lemma example_freeviz_interrupted:
  "run_freeviz 1 moving_fit (\<lambda>k. k = 0) () example_projector [] new_task_state =
     Some (Inr \<lparr>res_projector = \<lparr>initial = [[1]], components_T = [[1]]\<rparr>, res_projection = Some 1\<rparr>,
           [0, 0],
           \<lparr>progress_value = 1 / 10, status = ''Calculating...'', polls = 1,
            partial_results =
              [\<lparr>res_projector = \<lparr>initial = [[1]], components_T = [[1]]\<rparr>, res_projection = Some 1\<rparr>]\<rparr>)"
proof -
  have na: "\<not> allclose (components_T example_projector) [[1]]"
    by (simp add: allclose_def isclose_def example_projector_def)
  have fit: "moving_fit () (res_projector \<lparr>res_projector = example_projector, res_projection = None\<rparr>) []
      = Inr ([[1]], 0, [0])"
    by (simp add: moving_fit_example)
  have "run_freeviz (Suc 0) moving_fit (\<lambda>k. k = 0) () example_projector [] new_task_state =
     freeviz_loop (Suc 0) moving_fit (\<lambda>k. k = 0) ()
       \<lparr>res_projector = example_projector, res_projection = None\<rparr> 0
       (components_T example_projector) [] (set_status ''Calculating...'' new_task_state)"
    by (simp add: run_freeviz_def Let_def)
  also have "\<dots> = Some (Inr \<lparr>res_projector = \<lparr>initial = [[1]], components_T = [[1]]\<rparr>, res_projection = Some 1\<rparr>,
           [0, 0],
           \<lparr>progress_value = 1 / 10, status = ''Calculating...'', polls = 1,
            partial_results =
              [\<lparr>res_projector = \<lparr>initial = [[1]], components_T = [[1]]\<rparr>, res_projection = Some 1\<rparr>]\<rparr>)"
    unfolding freeviz_loop_step [where fit = moving_fit and data = "()", OF fit]
    using na
    by (simp add: new_task_state_def set_status_def set_partial_result_def
        set_progress_value_def MAX_ITERATIONS_def)
  finally show ?thesis by simp
qed

theorem cancellation_is_cooperative_witness:
  "fst (run (Some two_rows) example_learner (\<lambda>k. k = 1) (new_task_state :: unit task_state))
     = Inl PyException
   \<and> fst (DistanceRunner_run (Some two_rows) example_metric True 0 (\<lambda>k. k = 0)
           (new_task_state :: unit task_state)) = Inl InterruptException
   \<and> (\<exists>r s t. run_freeviz 1 moving_fit (\<lambda>k. k = 0) () example_projector [] new_task_state
                = Some (Inr r, s, t) \<and> partial_results t = [r])"
proof -
  let ?st = "new_task_state :: unit task_state"
  let ?o = "\<lparr>progress_value = 30, status = ''Initializing...'', polls = 2,
            partial_results = [] :: unit list\<rparr>"
  let ?d = "\<lparr>progress_value = 50, status = ''Calculating...'', polls = 1,
            partial_results = [] :: unit list\<rparr>"
  let ?r = "\<lparr>res_projector = \<lparr>initial = [[1]], components_T = [[1]]\<rparr>, res_projection = Some 1\<rparr>"
  let ?t = "\<lparr>progress_value = 1 / 10, status = ''Calculating...'', polls = 1,
            partial_results = [?r]\<rparr>"
  have p0: "polls ?st = 0"
    by (simp add: new_task_state_def)
  have "run (Some two_rows) example_learner (\<lambda>k. k = 1) ?st = (Inl PyException, ?o)
      \<and> polls ?st \<le> 1 \<and> 1 < polls ?o \<and> (1::nat) = 1
      \<longrightarrow> Inl PyException = (Inl PyException :: py_exception + nat results) \<and> polls ?o = Suc 1"
    by (rule cancellation_is_cooperative
      [where data = "Some two_rows" and learner = example_learner and req = "\<lambda>k. k = 1"
        and st = ?st and res = "Inl PyException" and st' = ?o and k = 1, THEN conjunct1])
  then have 1: "fst (run (Some two_rows) example_learner (\<lambda>k. k = 1) ?st) = Inl PyException"
    unfolding example_run_interrupted by simp
  have "DistanceRunner_run (Some two_rows) example_metric True 0 (\<lambda>k. k = 0) ?st
        = (Inl InterruptException, ?d)
      \<and> polls ?st \<le> 0 \<and> 0 < polls ?d \<and> (0::nat) = 0
      \<longrightarrow> Inl InterruptException = (Inl InterruptException :: py_exception + nat option)
        \<and> polls ?d = Suc 0"
    by (rule cancellation_is_cooperative
      [where ddata = "Some two_rows" and metric = example_metric and normalized_dist = True
        and ax = 0 and req = "\<lambda>k. k = 0" and dst = ?st and dres = "Inl InterruptException"
        and dst' = ?d and k = 0, THEN conjunct2, THEN conjunct1])
  then have 2: "fst (DistanceRunner_run (Some two_rows) example_metric True 0 (\<lambda>k. k = 0) ?st)
      = Inl InterruptException"
    unfolding example_distance_interrupted by simp
  have "run_freeviz 1 moving_fit (\<lambda>k. k = 0) () example_projector [] new_task_state
        = Some (Inr ?r, [0, 0], ?t)
      \<and> polls (new_task_state :: result task_state) \<le> 0 \<and> 0 < polls ?t \<and> (0::nat) = 0
      \<longrightarrow> polls ?t = Suc 0 \<and> partial_results ?t \<noteq> []
          \<and> Inr ?r = (Inr (last (partial_results ?t)) :: py_exception + result)
          \<and> length (partial_results ?t)
              = length (partial_results (new_task_state :: result task_state)) + (Suc 0 - polls (new_task_state :: result task_state))"
    by (rule cancellation_is_cooperative
      [where fuel = 1 and fit = moving_fit and req = "\<lambda>k. k = 0" and fdata = "()"
        and p = example_projector and store = "[]" and fvst = new_task_state
        and fres = "Inr ?r" and store' = "[0, 0]" and fvst' = ?t and k = 0,
        THEN conjunct2, THEN conjunct2])
  then have 3: "\<exists>r s t. run_freeviz 1 moving_fit (\<lambda>k. k = 0) () example_projector [] new_task_state
                = Some (Inr r, s, t) \<and> partial_results t = [r]"
    unfolding example_freeviz_interrupted by simp
  from 1 2 3 show ?thesis by blast
qed

section \<open>The exits of the FreeViz loop\<close>

lemma moving_fit_moves:
  "\<exists>a m s1. moving_fit d q s = Inr (a, m, s1) \<and> \<not> allclose (components_T q) a"
proof -
  let ?S = "sum_list (map (\<lambda>r. sum_list (map abs r)) (components_T q))"
  have "\<not> allclose (components_T q) [[2 * ?S + 1]]"
  proof
    assume "allclose (components_T q) [[2 * ?S + 1]]"
    then obtain x where q: "components_T q = [[x]]" and c: "isclose x (2 * ?S + 1)"
      by (auto simp: allclose_def list_all2_Cons2)
    from q have "?S = \<bar>x\<bar>" by simp
    with c have "\<bar>x - (2 * \<bar>x\<bar> + 1)\<bar> \<le> 1 / 10000 + 1 / 100000 * \<bar>2 * \<bar>x\<bar> + 1\<bar>"
      by (simp add: isclose_def)
    then show False by (cases "x < 0") (simp_all add: field_simps)
  qed
  then show ?thesis by (simp add: moving_fit_def)
qed

lemma run_freeviz_loop:
  "run_freeviz fuel fit req data p store st =
     freeviz_loop fuel fit req data \<lparr>res_projector = p, res_projection = None\<rparr> 0
       (components_T p) store (set_status ''Calculating...'' st)"
  by (simp add: run_freeviz_def Let_def)

text \<open>
  C9. The loop of \<open>run_freeviz\<close> returns in two ways only. If it returns a result, then
  the last poll was answered with yes (interruption), or a call of the projector left
  the anchors within the tolerance of \<open>allclose\<close> and these are the anchors returned
  (convergence). The step counter ends nothing: if every call of the projector moves the
  anchors and no interruption is requested, the loop has not returned after any number
  of iterations; and if the first interruption is requested at the poll after iteration
  \<open>n + 1\<close>, the loop runs these \<open>n + 1\<close> iterations, whatever \<open>n\<close> is, and the
  progress reported last is \<open>100 * (n + 1) / MAX_ITERATIONS\<close>, which exceeds 100 from
  \<open>n = MAX_ITERATIONS\<close> on.
\<close>

theorem run_freeviz_two_exits:
  "(run_freeviz fuel fit req data p store st = Some (Inr r, store', st')
      \<longrightarrow> (polls st < polls st' \<and> req (polls st' - 1))
        \<or> (\<exists>q s a m s1. fit data q s = Inr (a, m, s1) \<and> allclose (components_T q) a
              \<and> res_projector r = \<lparr>initial = a, components_T = a\<rparr>))
   \<and> ((\<forall>q s. \<exists>a m s1. fit data q s = Inr (a, m, s1) \<and> \<not> allclose (components_T q) a)
        \<and> (\<forall>k. \<not> req k)
      \<longrightarrow> run_freeviz fuel fit req data p store st = None)
   \<and> ((\<forall>q s. \<exists>a m s1. fit data q s = Inr (a, m, s1) \<and> \<not> allclose (components_T q) a)
        \<and> (\<forall>k<n. \<not> req (polls st + k)) \<and> req (polls st + n) \<and> n < fuel
      \<longrightarrow> (\<exists>r' s' t'. run_freeviz fuel fit req data p store st = Some (Inr r', s', t')
            \<and> length (partial_results t') = length (partial_results st) + n + 1
            \<and> progress_value t' = 100 * of_nat (n + 1) / of_nat MAX_ITERATIONS
            \<and> (MAX_ITERATIONS \<le> n \<longrightarrow> 100 < progress_value t')))"
proof (intro conjI impI)
  let ?res = "\<lparr>res_projector = p, res_projection = None\<rparr>"
  let ?st1 = "set_status ''Calculating...'' st"
  have p1: "polls ?st1 = polls st" and r1: "partial_results ?st1 = partial_results st"
    by (simp_all add: set_status_def)
  have inv: "components_T p = components_T (res_projector ?res)" by simp
  {
    assume "run_freeviz fuel fit req data p store st = Some (Inr r, store', st')"
    then have "freeviz_loop fuel fit req data ?res 0 (components_T p) store ?st1
        = Some (Inr r, store', st')"
      by (simp add: run_freeviz_loop)
    from freeviz_loop_exits [where fit = fit and data = data, OF this inv] p1
    show "(polls st < polls st' \<and> req (polls st' - 1))
        \<or> (\<exists>q s a m s1. fit data q s = Inr (a, m, s1) \<and> allclose (components_T q) a
              \<and> res_projector r = \<lparr>initial = a, components_T = a\<rparr>)"
      by simp
  }
  {
    assume a: "(\<forall>q s. \<exists>a m s1. fit data q s = Inr (a, m, s1) \<and> \<not> allclose (components_T q) a)
        \<and> (\<forall>k. \<not> req k)"
    then have mv: "\<forall>q s. \<exists>a m s1. fit data q s = Inr (a, m, s1) \<and> \<not> allclose (components_T q) a"
      and nreq: "\<forall>k. \<not> req k" by blast+
    show "run_freeviz fuel fit req data p store st = None"
      unfolding run_freeviz_loop by (rule freeviz_loop_diverges [where fit = fit and data = data, OF mv nreq inv])
  }
  {
    assume a: "(\<forall>q s. \<exists>a m s1. fit data q s = Inr (a, m, s1) \<and> \<not> allclose (components_T q) a)
        \<and> (\<forall>k<n. \<not> req (polls st + k)) \<and> req (polls st + n) \<and> n < fuel"
    then have mv: "\<forall>q s. \<exists>a m s1. fit data q s = Inr (a, m, s1) \<and> \<not> allclose (components_T q) a"
      and before: "\<forall>k<n. \<not> req (polls ?st1 + k)" and at: "req (polls ?st1 + n)"
      and fuel: "n < fuel"
      by (simp_all add: p1)
    from freeviz_loop_interrupt_at [where fit = fit and data = data, OF mv inv before at fuel, of 0 store]
    obtain r' s' t' where
      l: "freeviz_loop fuel fit req data ?res 0 (components_T p) store ?st1 = Some (Inr r', s', t')"
      and pv: "progress_value t' = 100 * of_nat (0 + n + 1) / of_nat MAX_ITERATIONS"
      and len: "length (partial_results t') = length (partial_results ?st1) + n + 1"
      by blast
    have big: "MAX_ITERATIONS \<le> n \<longrightarrow> 100 < progress_value t'"
    proof
      assume "MAX_ITERATIONS \<le> n"
      then have "(1000::rat) < of_nat (n + 1)"
        by (simp add: MAX_ITERATIONS_def)
      then show "100 < progress_value t'"
        by (simp add: pv MAX_ITERATIONS_def)
    qed
    from l pv len big r1
    show "\<exists>r' s' t'. run_freeviz fuel fit req data p store st = Some (Inr r', s', t')
            \<and> length (partial_results t') = length (partial_results st) + n + 1
            \<and> progress_value t' = 100 * of_nat (n + 1) / of_nat MAX_ITERATIONS
            \<and> (MAX_ITERATIONS \<le> n \<longrightarrow> 100 < progress_value t')"
      unfolding run_freeviz_loop by simp
  }
qed

lemma example_freeviz_converged:
  "run_freeviz 1 still_fit (\<lambda>k. False) () example_projector [] new_task_state =
     Some (Inr \<lparr>res_projector = example_projector, res_projection = Some 1\<rparr>,
           [0, 0],
           \<lparr>progress_value = 0, status = ''Calculating...'', polls = 0,
            partial_results = [\<lparr>res_projector = example_projector, res_projection = Some 1\<rparr>]\<rparr>)"
proof -
  have c: "allclose (components_T example_projector) [[0]]"
    by (simp add: allclose_def isclose_def example_projector_def)
  have fit: "still_fit () (res_projector \<lparr>res_projector = example_projector, res_projection = None\<rparr>) []
      = Inr ([[0]], 0, [0])"
    by (simp add: still_fit_def example_projector_def)
  have "run_freeviz (Suc 0) still_fit (\<lambda>k. False) () example_projector [] new_task_state =
     freeviz_loop (Suc 0) still_fit (\<lambda>k. False) ()
       \<lparr>res_projector = example_projector, res_projection = None\<rparr> 0
       (components_T example_projector) [] (set_status ''Calculating...'' new_task_state)"
    by (simp add: run_freeviz_def Let_def)
  also have "\<dots> = Some (Inr \<lparr>res_projector = example_projector, res_projection = Some 1\<rparr>,
           [0, 0],
           \<lparr>progress_value = 0, status = ''Calculating...'', polls = 0,
            partial_results = [\<lparr>res_projector = example_projector, res_projection = Some 1\<rparr>]\<rparr>)"
    unfolding freeviz_loop_step [where fit = still_fit and data = "()", OF fit]
    using c
    by (simp add: new_task_state_def set_status_def set_partial_result_def example_projector_def)
  finally show ?thesis by simp
qed

theorem run_freeviz_two_exits_witness:
  "run_freeviz 5000 moving_fit (\<lambda>k. False) () example_projector [] new_task_state = None
   \<and> (\<exists>r s t. run_freeviz 1001 moving_fit (\<lambda>k. k = 1000) () example_projector [] new_task_state
                  = Some (Inr r, s, t)
          \<and> length (partial_results t) = 1001 \<and> 100 < progress_value t)
   \<and> (\<exists>q s a m s1. still_fit () q s = Inr (a, m, s1) \<and> allclose (components_T q) a
          \<and> example_projector = \<lparr>initial = a, components_T = a\<rparr>)"
proof -
  let ?st = "new_task_state :: result task_state"
  let ?r = "\<lparr>res_projector = example_projector, res_projection = Some 1\<rparr>"
  let ?t = "\<lparr>progress_value = 0, status = ''Calculating...'', polls = 0,
            partial_results = [?r]\<rparr>"
  have mv: "\<forall>q s. \<exists>a m s1. moving_fit () q s = Inr (a, m, s1) \<and> \<not> allclose (components_T q) a"
    using moving_fit_moves by blast
  have p0: "polls ?st = 0" and r0: "partial_results ?st = []"
    by (simp_all add: new_task_state_def)
  have 1: "run_freeviz 5000 moving_fit (\<lambda>k. False) () example_projector [] ?st = None"
    using mv run_freeviz_two_exits
      [where fuel = 5000 and fit = moving_fit and req = "\<lambda>k. False" and data = "()"
        and p = example_projector and store = "[]" and st = ?st,
        THEN conjunct2, THEN conjunct1]
    by blast
  have "\<exists>r' s' t'. run_freeviz 1001 moving_fit (\<lambda>k. k = 1000) () example_projector [] ?st
            = Some (Inr r', s', t')
          \<and> length (partial_results t') = length (partial_results ?st) + 1000 + 1
          \<and> progress_value t' = 100 * of_nat (1000 + 1) / of_nat MAX_ITERATIONS
          \<and> (MAX_ITERATIONS \<le> 1000 \<longrightarrow> 100 < progress_value t')"
    using mv p0 run_freeviz_two_exits
      [where fuel = 1001 and fit = moving_fit and req = "\<lambda>k. k = 1000" and data = "()"
        and p = example_projector and store = "[]" and st = ?st and n = 1000,
        THEN conjunct2, THEN conjunct2]
    by simp
  then have 2: "\<exists>r s t. run_freeviz 1001 moving_fit (\<lambda>k. k = 1000) () example_projector [] ?st
                  = Some (Inr r, s, t)
          \<and> length (partial_results t) = 1001 \<and> 100 < progress_value t"
    unfolding r0 by (auto simp: MAX_ITERATIONS_def)
  have "(polls ?st < polls ?t \<and> False)
        \<or> (\<exists>q s a m s1. still_fit () q s = Inr (a, m, s1) \<and> allclose (components_T q) a
              \<and> res_projector ?r = \<lparr>initial = a, components_T = a\<rparr>)"
    using example_freeviz_converged run_freeviz_two_exits
      [where fuel = 1 and fit = still_fit and req = "\<lambda>k. False" and data = "()"
        and p = example_projector and store = "[]" and st = ?st and r = ?r
        and store' = "[0, 0]" and st' = ?t, THEN conjunct1]
    by blast
  then have 3: "\<exists>q s a m s1. still_fit () q s = Inr (a, m, s1) \<and> allclose (components_T q) a
          \<and> example_projector = \<lparr>initial = a, components_T = a\<rparr>"
    by simp
  from 1 2 3 show ?thesis by blast
qed

section \<open>Partial results of FreeViz\<close>

declare freeviz_steps.simps(2) [simp del]

lemma freeviz_steps_raise:
  "fit data (res_projector res) store = Inl e \<Longrightarrow>
   freeviz_steps (Suc n) fit req data res step init store st = (Some (Inl e), store, st)"
  by (simp add: freeviz_steps.simps(2))

lemma freeviz_steps_step:
  assumes "fit data (res_projector res) store = Inr (a, m, s1)"
  defines "res1 \<equiv> \<lparr>res_projector = \<lparr>initial = a, components_T = a\<rparr>, res_projection = Some (length s1)\<rparr>"
  shows "freeviz_steps (Suc n) fit req data res step init store st =
     (if allclose init a then (Some (Inr res1), s1 @ [s1 ! m], set_partial_result res1 st)
      else if req (polls st)
      then (Some (Inr res1), s1 @ [s1 ! m],
                 (set_progress_value (100 * of_nat (Suc step) / of_nat MAX_ITERATIONS)
                    (set_partial_result res1 st))\<lparr>polls := Suc (polls st)\<rparr>)
      else freeviz_steps n fit req data res1 (Suc step) a (s1 @ [s1 ! m])
             ((set_progress_value (100 * of_nat (Suc step) / of_nat MAX_ITERATIONS)
                    (set_partial_result res1 st))\<lparr>polls := Suc (polls st)\<rparr>))"
  using assms(1) unfolding res1_def
  by (simp add: copy_def Let_def is_interruption_requested_def set_progress_value_def
      set_partial_result_def freeviz_steps.simps(2))

text \<open>The two functions are the same loop.\<close>

lemma freeviz_loop_steps:
  "freeviz_loop n fit req data res step init store st =
     (case freeviz_steps n fit req data res step init store st of
        (None, store', st') \<Rightarrow> None
      | (Some out, store', st') \<Rightarrow> Some (out, store', st'))"
proof (induction n arbitrary: res step init store st)
  case 0
  show ?case by simp
next
  case (Suc n)
  show ?case
  proof (cases "fit data (res_projector res) store")
    case (Inl e)
    show ?thesis
      by (simp add: freeviz_loop_raise [where fit = fit and data = data, OF Inl]
          freeviz_steps_raise [where fit = fit and data = data, OF Inl])
  next
    case (Inr t)
    obtain a m s1 where t: "fit data (res_projector res) store = Inr (a, m, s1)"
      using Inr by (cases t) simp
    show ?thesis
      by (simp add: freeviz_loop_step [where fit = fit and data = data, OF t]
          freeviz_steps_step [where fit = fit and data = data, OF t] Suc.IH)
  qed
qed

lemma freeviz_steps_facts:
  assumes "freeviz_steps n fit req data res step init store st = (out, store', st')"
  shows "\<exists>new. partial_results st' = partial_results st @ new
      \<and> (\<forall>q\<in>set new. res_projection q \<noteq> None)
      \<and> (out = None \<longrightarrow> length new = n \<and> polls st' = polls st + n)"
  using assms
proof (induction n arbitrary: res step init store st)
  case 0
  then show ?case by simp
next
  case (Suc n)
  show ?case
  proof (cases "fit data (res_projector res) store")
    case (Inl e)
    from Suc.prems freeviz_steps_raise [where fit = fit and data = data, OF Inl, of n req step init st]
    have "st' = st" "out \<noteq> None" by auto
    then show ?thesis by simp
  next
    case (Inr t)
    obtain a m s1 where t: "fit data (res_projector res) store = Inr (a, m, s1)"
      using Inr by (cases t) simp
    define res1 where "res1 = \<lparr>res_projector = \<lparr>initial = a, components_T = a\<rparr>, res_projection = Some (length s1)\<rparr>"
    define st2 where "st2 = (set_progress_value (100 * of_nat (Suc step) / of_nat MAX_ITERATIONS)
                    (set_partial_result res1 st))\<lparr>polls := Suc (polls st)\<rparr>"
    note step = freeviz_steps_step [where fit = fit and data = data, OF t, of n req step init st,
        folded res1_def, folded st2_def]
    have r2: "partial_results st2 = partial_results st @ [res1]"
      and p2: "polls st2 = Suc (polls st)"
      by (simp_all add: st2_def set_progress_value_def set_partial_result_def)
    have p1: "res_projection res1 \<noteq> None" by (simp add: res1_def)
    consider (conv) "st' = set_partial_result res1 st" "out \<noteq> None"
      | (intr) "st' = st2" "out \<noteq> None"
      | (cont) "freeviz_steps n fit req data res1 (Suc step) a (s1 @ [s1 ! m]) st2 = (out, store', st')"
      using Suc.prems step by (auto split: if_splits)
    then show ?thesis
    proof cases
      case conv
      with p1 show ?thesis by (auto simp: set_partial_result_def)
    next
      case intr
      with p1 r2 show ?thesis by auto
    next
      case cont
      from Suc.IH [OF cont] obtain new where
        "partial_results st' = partial_results st2 @ new" "\<forall>q\<in>set new. res_projection q \<noteq> None"
        "out = None \<longrightarrow> length new = n \<and> polls st' = polls st2 + n"
        by blast
      with r2 p1 p2 have "partial_results st' = partial_results st @ (res1 # new)
          \<and> (\<forall>q\<in>set (res1 # new). res_projection q \<noteq> None)
          \<and> (out = None \<longrightarrow> length (res1 # new) = Suc n \<and> polls st' = polls st + Suc n)" by simp
      then show ?thesis by blast
    qed
  qed
qed

lemma freeviz_steps_first_partial:
  assumes t: "fit data (res_projector res) store = Inr (a, m, s1)"
    and steps: "freeviz_steps (Suc n) fit req data res step init store st = (out, store', st')"
  shows "\<exists>rest. partial_results st' = partial_results st @
           \<lparr>res_projector = \<lparr>initial = a, components_T = a\<rparr>, res_projection = Some (length s1)\<rparr> # rest"
proof -
  define res1 where "res1 = \<lparr>res_projector = \<lparr>initial = a, components_T = a\<rparr>, res_projection = Some (length s1)\<rparr>"
  define st2 where "st2 = (set_progress_value (100 * of_nat (Suc step) / of_nat MAX_ITERATIONS)
                  (set_partial_result res1 st))\<lparr>polls := Suc (polls st)\<rparr>"
  note step = freeviz_steps_step [where fit = fit and data = data, OF t, of n req step init st,
      folded res1_def, folded st2_def]
  have r2: "partial_results st2 = partial_results st @ [res1]"
    by (simp add: st2_def set_progress_value_def set_partial_result_def)
  consider (conv) "st' = set_partial_result res1 st" | (intr) "st' = st2"
    | (cont) "freeviz_steps n fit req data res1 (Suc step) a (s1 @ [s1 ! m]) st2 = (out, store', st')"
    using steps step by (auto split: if_splits)
  then have "\<exists>rest. partial_results st' = partial_results st @ res1 # rest"
  proof cases
    case conv
    then show ?thesis by (simp add: set_partial_result_def)
  next
    case intr
    with r2 show ?thesis by simp
  next
    case cont
    from freeviz_steps_facts [OF cont] r2 show ?thesis by auto
  qed
  then show ?thesis by (simp add: res1_def)
qed

lemma run_freeviz_steps_loop:
  "run_freeviz_steps n fit req data p store st =
     freeviz_steps n fit req data \<lparr>res_projector = p, res_projection = None\<rparr> 0
       (components_T p) store (set_status ''Calculating...'' st)"
  by (simp add: run_freeviz_steps_def Let_def)

text \<open>
  C4. FreeViz streams partial results. Observe \<open>run_freeviz\<close> after at most \<open>n\<close>
  iterations (\<open>run_freeviz_steps\<close>, which agrees with \<open>run_freeviz\<close> on what is returned).
  The partial results handed over so far are one per iteration: \<open>n\<close> of them if the loop
  is still running, which is the case for every \<open>n\<close> when the projector always moves the
  anchors and no interruption is requested; if the loop has returned, the last one is the
  result returned, and there are as many as polls for interruption if the last poll
  ended the loop and one more if it ended by convergence, so the hand-over comes before
  the convergence check. Each of them holds a projection, so \<open>on_partial_result\<close> passes
  its assertions and makes this projector and this projection the widget's. In any
  iteration in which the projector returns, what is handed over holds the new anchors
  and, as its projection, the address that \<open>copy\<close> has allocated: one that did not exist
  in the store the projector returned, so not the projector's own object \<open>m\<close>, with the
  contents of \<open>m\<close>.
\<close>

theorem freeviz_streams_partial_results:
  "(run_freeviz_steps n fit req data p store st = (out, store', st') \<longrightarrow>
      run_freeviz n fit req data p store st
        = (case out of None \<Rightarrow> None | Some x \<Rightarrow> Some (x, store', st'))
      \<and> (\<exists>new. partial_results st' = partial_results st @ new
            \<and> (\<forall>q\<in>set new. \<exists>w'. OWFreeViz_on_partial_result q w = Inr w'
                   \<and> fv_projector w' = Some (res_projector q)
                   \<and> fv_projection w' = res_projection q)
            \<and> (case out of
                  None \<Rightarrow> length new = n
                | Some (Inl e) \<Rightarrow> length new = polls st' - polls st
                | Some (Inr r) \<Rightarrow> new \<noteq> [] \<and> last new = r
                    \<and> length new = polls st' - polls st
                         + (if polls st < polls st' \<and> req (polls st' - 1) then 0 else 1)))
      \<and> ((\<forall>q s. \<exists>a m s1. fit data q s = Inr (a, m, s1) \<and> \<not> allclose (components_T q) a)
            \<and> (\<forall>k. \<not> req k) \<longrightarrow> out = None))
   \<and> (freeviz_steps (Suc k) fit req data res step init lstore lst = (lout, lstore', lst')
        \<and> fit data (res_projector res) lstore = Inr (a, m, s1) \<and> m < length s1
      \<longrightarrow> (\<exists>rest. partial_results lst' = partial_results lst @
               \<lparr>res_projector = \<lparr>initial = a, components_T = a\<rparr>,
                res_projection = Some (fst (copy m s1))\<rparr> # rest)
          \<and> fst (copy m s1) \<noteq> m \<and> \<not> fst (copy m s1) < length s1
          \<and> snd (copy m s1) ! fst (copy m s1) = s1 ! m)"
proof (rule conjI; rule impI)
  let ?res = "\<lparr>res_projector = p, res_projection = None\<rparr>"
  let ?st1 = "set_status ''Calculating...'' st"
  have p1: "polls ?st1 = polls st" and r1: "partial_results ?st1 = partial_results st"
    by (simp_all add: set_status_def)
  assume "run_freeviz_steps n fit req data p store st = (out, store', st')"
  then have steps: "freeviz_steps n fit req data ?res 0 (components_T p) store ?st1 = (out, store', st')"
    by (simp add: run_freeviz_steps_loop)
  have link: "run_freeviz n fit req data p store st
        = (case out of None \<Rightarrow> None | Some x \<Rightarrow> Some (x, store', st'))"
    using steps by (simp add: run_freeviz_loop freeviz_loop_steps split: option.splits)
  from freeviz_steps_facts [OF steps] obtain new where
    new: "partial_results st' = partial_results ?st1 @ new"
    and proj: "\<forall>q\<in>set new. res_projection q \<noteq> None"
    and running: "out = None \<longrightarrow> length new = n \<and> polls st' = polls ?st1 + n"
    by blast
  have handler: "\<forall>q\<in>set new. \<exists>w'. OWFreeViz_on_partial_result q w = Inr w'
                   \<and> fv_projector w' = Some (res_projector q)
                   \<and> fv_projection w' = res_projection q"
    using proj by (simp add: OWFreeViz_on_partial_result_def)
  have count: "(case out of
                  None \<Rightarrow> length new = n
                | Some (Inl e) \<Rightarrow> length new = polls st' - polls st
                | Some (Inr r) \<Rightarrow> new \<noteq> [] \<and> last new = r
                    \<and> length new = polls st' - polls st
                         + (if polls st < polls st' \<and> req (polls st' - 1) then 0 else 1))"
  proof (cases out)
    case None
    with running show ?thesis by simp
  next
    case (Some x)
    with steps have loop: "freeviz_loop n fit req data ?res 0 (components_T p) store ?st1
        = Some (x, store', st')"
      by (simp add: freeviz_loop_steps)
    from freeviz_loop_facts [OF loop] obtain new' where
      mono: "polls ?st1 \<le> polls st'"
      and new': "partial_results st' = partial_results ?st1 @ new'"
      and c: "(case x of
                Inl e \<Rightarrow> length new' = polls st' - polls ?st1
              | Inr r \<Rightarrow> new' \<noteq> [] \<and> last new' = r
                  \<and> Suc (polls st' - polls ?st1) =
                      length new' + (if polls ?st1 < polls st' \<and> req (polls st' - 1) then 1 else 0))"
      by blast
    from new new' have "new' = new" by simp
    with c mono p1 Some show ?thesis
      by (cases x) (auto split: if_splits)
  qed
  have div: "(\<forall>q s. \<exists>a m s1. fit data q s = Inr (a, m, s1) \<and> \<not> allclose (components_T q) a)
            \<and> (\<forall>k. \<not> req k) \<longrightarrow> out = None"
  proof
    assume "(\<forall>q s. \<exists>a m s1. fit data q s = Inr (a, m, s1) \<and> \<not> allclose (components_T q) a)
            \<and> (\<forall>k. \<not> req k)"
    then have mv: "\<forall>q s. \<exists>a m s1. fit data q s = Inr (a, m, s1) \<and> \<not> allclose (components_T q) a"
      and nreq: "\<forall>k. \<not> req k" by blast+
    have inv: "components_T p = components_T (res_projector ?res)" by simp
    have "freeviz_loop n fit req data ?res 0 (components_T p) store ?st1 = None"
      by (rule freeviz_loop_diverges [where fit = fit and data = data, OF mv nreq inv])
    with steps show "out = None"
      by (cases out) (simp_all add: freeviz_loop_steps)
  qed
  from link new r1 handler count div
  show "run_freeviz n fit req data p store st
        = (case out of None \<Rightarrow> None | Some x \<Rightarrow> Some (x, store', st'))
      \<and> (\<exists>new. partial_results st' = partial_results st @ new
            \<and> (\<forall>q\<in>set new. \<exists>w'. OWFreeViz_on_partial_result q w = Inr w'
                   \<and> fv_projector w' = Some (res_projector q)
                   \<and> fv_projection w' = res_projection q)
            \<and> (case out of
                  None \<Rightarrow> length new = n
                | Some (Inl e) \<Rightarrow> length new = polls st' - polls st
                | Some (Inr r) \<Rightarrow> new \<noteq> [] \<and> last new = r
                    \<and> length new = polls st' - polls st
                         + (if polls st < polls st' \<and> req (polls st' - 1) then 0 else 1)))
      \<and> ((\<forall>q s. \<exists>a m s1. fit data q s = Inr (a, m, s1) \<and> \<not> allclose (components_T q) a)
            \<and> (\<forall>k. \<not> req k) \<longrightarrow> out = None)"
    by auto
next
  assume h: "freeviz_steps (Suc k) fit req data res step init lstore lst = (lout, lstore', lst')
        \<and> fit data (res_projector res) lstore = Inr (a, m, s1) \<and> m < length s1"
  then have t: "fit data (res_projector res) lstore = Inr (a, m, s1)" and m: "m < length s1"
    and steps: "freeviz_steps (Suc k) fit req data res step init lstore lst = (lout, lstore', lst')"
    by blast+
  from freeviz_steps_first_partial [where fit = fit and data = data, OF t steps] m
  show "(\<exists>rest. partial_results lst' = partial_results lst @
               \<lparr>res_projector = \<lparr>initial = a, components_T = a\<rparr>,
                res_projection = Some (fst (copy m s1))\<rparr> # rest)
          \<and> fst (copy m s1) \<noteq> m \<and> \<not> fst (copy m s1) < length s1
          \<and> snd (copy m s1) ! fst (copy m s1) = s1 ! m"
    by (simp add: copy_def)
qed

theorem freeviz_streams_partial_results_witness:
  "\<exists>store' st'.
      run_freeviz_steps 3 moving_fit (\<lambda>k. False) () example_projector [] new_task_state
        = (None, store', st')
      \<and> run_freeviz 3 moving_fit (\<lambda>k. False) () example_projector [] new_task_state = None
      \<and> length (partial_results st') = 3
      \<and> (\<forall>w :: unit OWFreeViz. \<forall>q\<in>set (partial_results st').
            \<exists>w'. OWFreeViz_on_partial_result q w = Inr w'
              \<and> fv_projection w' = res_projection q)"
proof -
  let ?st = "new_task_state :: result task_state"
  obtain out store' st' where
    obs: "run_freeviz_steps 3 moving_fit (\<lambda>k. False) () example_projector [] ?st = (out, store', st')"
    by (cases "run_freeviz_steps 3 moving_fit (\<lambda>k. False) () example_projector [] ?st")
  have mv: "\<forall>q s. \<exists>a m s1. moving_fit () q s = Inr (a, m, s1) \<and> \<not> allclose (components_T q) a"
    using moving_fit_moves by blast
  have r0: "partial_results ?st = []"
    by (simp add: new_task_state_def)
  have T: "\<And>w :: unit OWFreeViz.
      run_freeviz 3 moving_fit (\<lambda>k. False) () example_projector [] ?st
        = (case out of None \<Rightarrow> None | Some x \<Rightarrow> Some (x, store', st'))
      \<and> (\<exists>new. partial_results st' = partial_results ?st @ new
            \<and> (\<forall>q\<in>set new. \<exists>w'. OWFreeViz_on_partial_result q w = Inr w'
                   \<and> fv_projector w' = Some (res_projector q)
                   \<and> fv_projection w' = res_projection q)
            \<and> (case out of
                  None \<Rightarrow> length new = 3
                | Some (Inl e) \<Rightarrow> length new = polls st' - polls ?st
                | Some (Inr r) \<Rightarrow> new \<noteq> [] \<and> last new = r
                    \<and> length new = polls st' - polls ?st
                         + (if polls ?st < polls st' \<and> False then 0 else 1)))
      \<and> ((\<forall>q s. \<exists>a m s1. moving_fit () q s = Inr (a, m, s1) \<and> \<not> allclose (components_T q) a)
            \<and> (\<forall>k. \<not> False) \<longrightarrow> out = None)"
    using obs freeviz_streams_partial_results
      [where n = 3 and fit = moving_fit and req = "\<lambda>k. False" and data = "()"
        and p = example_projector and store = "[]" and st = ?st
        and out = out and store' = store' and st' = st', THEN conjunct1]
    by blast
  from T mv have none: "out = None" by blast
  have len: "length (partial_results st') = 3"
    using T none r0 by auto
  have run: "run_freeviz 3 moving_fit (\<lambda>k. False) () example_projector [] ?st = None"
    using T none by simp
  have hand: "\<forall>w :: unit OWFreeViz. \<forall>q\<in>set (partial_results st').
            \<exists>w'. OWFreeViz_on_partial_result q w = Inr w' \<and> fv_projection w' = res_projection q"
  proof
    fix w :: "unit OWFreeViz"
    from T [of w] r0 show "\<forall>q\<in>set (partial_results st').
            \<exists>w'. OWFreeViz_on_partial_result q w = Inr w' \<and> fv_projection w' = res_projection q"
      by auto
  qed
  from obs none run len hand show ?thesis by blast
qed

section \<open>The outlier task partitions the data\<close>

lemma np_where_eq_bounds: "list_all (\<lambda>i. i < length col) (np_where_eq col v)"
  by (simp add: np_where_eq_def list_all_iff)

lemma np_where_eq_disjoint: "set (np_where_eq col 1) \<inter> set (np_where_eq col 0) = {}"
  by (auto simp: np_where_eq_def)

lemma np_where_eq_cover:
  assumes "set col \<subseteq> {0, 1}"
  shows "length (np_where_eq col 1) + length (np_where_eq col 0) = length col"
proof -
  have "\<And>i. i \<in> set [0..<length col] \<Longrightarrow> (col ! i = 0) = (\<not> col ! i = 1)"
    using assms by (auto simp: subset_iff dest: nth_mem)
  then have "filter (\<lambda>i. col ! i = 0) [0..<length col]
      = filter (\<lambda>i. \<not> col ! i = 1) [0..<length col]"
    by (intro filter_cong) auto
  then show ?thesis
    using sum_length_filter_compl [of "\<lambda>i. col ! i = 1" "[0..<length col]"]
    by (simp add: np_where_eq_def)
qed

lemma outliers_callback_quiet:
  assumes "\<forall>k. \<not> req k" and "outliers_callback req status_text p st = (eo, st')"
  shows "eo = None"
  using assms
  by (auto simp: outliers_callback_def is_interruption_requested_def Let_def)

lemma run_job_quiet:
  assumes never: "\<forall>k. \<not> req k"
    and run: "run_job (wrap_callback (outliers_callback req []) a b) j st = (r, st')"
  shows "r = job_result j"
proof -
  let ?cb = "wrap_callback (outliers_callback req []) a b"
  have "fst (run_job ?cb j st) = job_result j"
    by (rule run_job_not_interrupted [where req = req and e = PyException])
      (simp_all add: wrap_callback_def outliers_callback_fst outliers_callback_polls never)
  with run show ?thesis by simp
qed

lemma run_not_interrupted:
  assumes rows: "rows d \<noteq> []"
    and learner: "job_result (learner d) = Inr model"
    and model: "job_result (model d) = Inr pred"
    and len: "length (outlier_column pred) = length (rows d)"
    and never: "\<forall>k. \<not> req k"
  shows "\<exists>st'. run (Some d) learner req st =
     (Inr \<lparr>inliers = Some (d\<lparr>rows := map (\<lambda>i. rows d ! i) (np_where_eq (outlier_column pred) 1)\<rparr>),
           outliers = Some (d\<lparr>rows := map (\<lambda>i. rows d ! i) (np_where_eq (outlier_column pred) 0)\<rparr>),
           annotated_data = Some pred\<rparr>, st')"
proof -
  obtain r st' where rr: "run (Some d) learner req st = (r, st')"
    by (cases "run (Some d) learner req st")
  have g: "\<And>v. table_getitem d (np_where_eq (outlier_column pred) v)
      = Inr (d\<lparr>rows := map (\<lambda>i. rows d ! i) (np_where_eq (outlier_column pred) v)\<rparr>)"
    using np_where_eq_bounds [of "outlier_column pred"] len by (simp add: table_getitem_def)
  have "r = Inr \<lparr>inliers = Some (d\<lparr>rows := map (\<lambda>i. rows d ! i) (np_where_eq (outlier_column pred) 1)\<rparr>),
           outliers = Some (d\<lparr>rows := map (\<lambda>i. rows d ! i) (np_where_eq (outlier_column pred) 0)\<rparr>),
           annotated_data = Some pred\<rparr>"
    using rr rows learner model
    by (auto simp: run_def Let_def g split: prod.splits sum.splits option.splits
        dest!: outliers_callback_quiet [where req = req, OF never]
          run_job_quiet [where req = req, OF never])
  with rr show ?thesis by blast
qed

text \<open>
  C8. The outlier task partitions the data. Without data, or for a table without rows,
  \<open>run\<close> returns a \<open>Results\<close> whose three fields are \<open>None\<close>. For a table with rows, a
  learner and model that end with a prediction whose outlier column holds one value per
  row, each 0 or 1, and no interruption, \<open>run\<close> returns: the inliers are the rows at
  the positions that hold 1, the outliers the rows at the positions that hold 0 (both in
  the order of the table), no position is in both, the two sizes add up to the number of
  rows, and \<open>annotated_data\<close> is the prediction.
\<close>

theorem run_partitions_data:
  "run None learner req st = (Inr \<lparr>inliers = None, outliers = None, annotated_data = None\<rparr>, st)
   \<and> (rows d = [] \<longrightarrow>
        run (Some d) learner req st
          = (Inr \<lparr>inliers = None, outliers = None, annotated_data = None\<rparr>, st))
   \<and> (rows d \<noteq> [] \<and> job_result (learner d) = Inr model \<and> job_result (model d) = Inr pred
        \<and> length (outlier_column pred) = length (rows d)
        \<and> set (outlier_column pred) \<subseteq> {0, 1} \<and> (\<forall>k. \<not> req k)
      \<longrightarrow> (\<exists>inl outl st'.
             run (Some d) learner req st
               = (Inr \<lparr>inliers = Some inl, outliers = Some outl, annotated_data = Some pred\<rparr>, st')
           \<and> rows inl = map (\<lambda>i. rows d ! i)
                           (filter (\<lambda>i. outlier_column pred ! i = 1) [0..<length (rows d)])
           \<and> rows outl = map (\<lambda>i. rows d ! i)
                            (filter (\<lambda>i. outlier_column pred ! i = 0) [0..<length (rows d)])
           \<and> {i. i < length (rows d) \<and> outlier_column pred ! i = 1}
               \<inter> {i. i < length (rows d) \<and> outlier_column pred ! i = 0} = {}
           \<and> length (rows inl) + length (rows outl) = length (rows d)))"
proof (intro conjI impI)
  show "run None learner req st
      = (Inr \<lparr>inliers = None, outliers = None, annotated_data = None\<rparr>, st)"
    by (simp add: run_def Results_def)
next
  assume "rows d = []"
  then show "run (Some d) learner req st
      = (Inr \<lparr>inliers = None, outliers = None, annotated_data = None\<rparr>, st)"
    by (simp add: run_def Results_def)
next
  assume h: "rows d \<noteq> [] \<and> job_result (learner d) = Inr model \<and> job_result (model d) = Inr pred
        \<and> length (outlier_column pred) = length (rows d)
        \<and> set (outlier_column pred) \<subseteq> {0, 1} \<and> (\<forall>k. \<not> req k)"
  let ?col = "outlier_column pred"
  from h have len: "length ?col = length (rows d)" and vals: "set ?col \<subseteq> {0, 1}" by blast+
  from h run_not_interrupted [of d learner model pred req st] obtain st' where
    r: "run (Some d) learner req st =
     (Inr \<lparr>inliers = Some (d\<lparr>rows := map (\<lambda>i. rows d ! i) (np_where_eq ?col 1)\<rparr>),
           outliers = Some (d\<lparr>rows := map (\<lambda>i. rows d ! i) (np_where_eq ?col 0)\<rparr>),
           annotated_data = Some pred\<rparr>, st')"
    by blast
  have sizes: "length (np_where_eq ?col 1) + length (np_where_eq ?col 0) = length (rows d)"
    using np_where_eq_cover [OF vals] len by simp
  show "\<exists>inl outl st'.
             run (Some d) learner req st
               = (Inr \<lparr>inliers = Some inl, outliers = Some outl, annotated_data = Some pred\<rparr>, st')
           \<and> rows inl = map (\<lambda>i. rows d ! i)
                           (filter (\<lambda>i. outlier_column pred ! i = 1) [0..<length (rows d)])
           \<and> rows outl = map (\<lambda>i. rows d ! i)
                            (filter (\<lambda>i. outlier_column pred ! i = 0) [0..<length (rows d)])
           \<and> {i. i < length (rows d) \<and> outlier_column pred ! i = 1}
               \<inter> {i. i < length (rows d) \<and> outlier_column pred ! i = 0} = {}
           \<and> length (rows inl) + length (rows outl) = length (rows d)"
    using r sizes len by (auto simp: np_where_eq_def)
qed

lemma example_run:
  "run (Some two_rows) example_learner (\<lambda>k. False) (new_task_state :: unit task_state) =
     (Inr \<lparr>inliers = Some \<lparr>rows = [10], n_attributes = 1\<rparr>,
           outliers = Some \<lparr>rows = [20], n_attributes = 1\<rparr>,
           annotated_data = Some \<lparr>pred_table = two_rows, outlier_column = [1, 0]\<rparr>\<rparr>,
      \<lparr>progress_value = 100, status = ''Initializing...'', polls = 4, partial_results = []\<rparr>)"
  by (simp add: run_def two_rows_def example_learner_def new_task_state_def
      outliers_callback_def wrap_callback_def is_interruption_requested_def
      set_progress_value_def set_status_def table_getitem_def np_where_eq_def Let_def
      upt_rec [of 0] upt_rec [of 1])

theorem run_partitions_data_witness:
  "\<exists>inl outl st'.
      run (Some two_rows) example_learner (\<lambda>k. False) (new_task_state :: unit task_state)
        = (Inr \<lparr>inliers = Some inl, outliers = Some outl,
                annotated_data = Some \<lparr>pred_table = two_rows, outlier_column = [1, 0]\<rparr>\<rparr>, st')
      \<and> rows inl = [10] \<and> rows outl = [20]"
proof -
  let ?model = "\<lambda>d'. Report (1 / 2) (Return \<lparr>pred_table = d', outlier_column = [1, 0]\<rparr>)"
  let ?pred = "\<lparr>pred_table = two_rows, outlier_column = [1, 0]\<rparr>"
  have prem: "rows two_rows \<noteq> [] \<and> job_result (example_learner two_rows) = Inr ?model
        \<and> job_result (?model two_rows) = Inr ?pred
        \<and> length (outlier_column ?pred) = length (rows two_rows)
        \<and> set (outlier_column ?pred) \<subseteq> {0, 1} \<and> (\<forall>k. \<not> (\<lambda>k. False) k)"
    by (simp add: two_rows_def example_learner_def)
  note T = run_partitions_data
      [where d = two_rows and learner = example_learner and model = ?model and pred = ?pred
        and req = "\<lambda>k. False" and st = "new_task_state :: unit task_state",
        THEN conjunct2, THEN conjunct2]
  from T prem have "\<exists>inl outl st'.
             run (Some two_rows) example_learner (\<lambda>k. False) (new_task_state :: unit task_state)
               = (Inr \<lparr>inliers = Some inl, outliers = Some outl, annotated_data = Some ?pred\<rparr>, st')
           \<and> rows inl = map (\<lambda>i. rows two_rows ! i)
                           (filter (\<lambda>i. outlier_column ?pred ! i = 1) [0..<length (rows two_rows)])
           \<and> rows outl = map (\<lambda>i. rows two_rows ! i)
                            (filter (\<lambda>i. outlier_column ?pred ! i = 0) [0..<length (rows two_rows)])
           \<and> {i. i < length (rows two_rows) \<and> outlier_column ?pred ! i = 1}
               \<inter> {i. i < length (rows two_rows) \<and> outlier_column ?pred ! i = 0} = {}
           \<and> length (rows inl) + length (rows outl) = length (rows two_rows)"
    by (rule mp)
  then show ?thesis
    by (simp add: two_rows_def upt_rec [of 0] upt_rec [of 1]) blast
qed

section \<open>The Data Sampler keeps its outputs on an error\<close>

lemma check_sampling_frame:
  assumes "check_sampling d w = Inr (w3, repl, size')"
  shows "w3 = w\<lparr>ds_errors := ds_errors w3, ds_warnings := []\<rparr>"
  using assms
  by (auto simp: check_sampling_def Let_def split: if_splits)

lemma check_sampling_settings:
  "check_sampling d (w\<lparr>ds_errors := es, ds_warnings := ws, indices := ix\<rparr>)
     = map_sum id (\<lambda>(w3, repl, size'). (w3\<lparr>indices := ix\<rparr>, repl, size')) (check_sampling d w)"
  by (simp add: check_sampling_def Let_def)

text \<open>With an active error \<open>updateindices\<close> has taken its early return.\<close>

lemma updateindices_error:
  assumes "updateindices sample d w = Inr w'" and "Error_active w'"
  shows "\<exists>w3 repl size'. check_sampling d w = Inr (w3, repl, size') \<and> Error_active w3
           \<and> w' = w3\<lparr>indices := None\<rparr>"
  using assms
  by (auto simp: updateindices_def Error_active_def Let_def
      split: sum.splits prod.splits if_splits py_exception.splits)

lemma updateindices_error_frame:
  assumes u: "updateindices sample d w = Inr w'" and e: "Error_active w'"
  shows "indices w' = None \<and> ds_sent w' = ds_sent w \<and> ds_data w' = ds_data w
     \<and> w' = w\<lparr>ds_errors := ds_errors w', ds_warnings := [], indices := None\<rparr>"
proof -
  from updateindices_error [OF u e] obtain w3 repl size' where
    c: "check_sampling d w = Inr (w3, repl, size')" and w': "w' = w3\<lparr>indices := None\<rparr>"
    by blast
  from check_sampling_frame [OF c] have "w3 = w\<lparr>ds_errors := ds_errors w3, ds_warnings := []\<rparr>" .
  then have "w3\<lparr>indices := None\<rparr>
      = w\<lparr>ds_errors := ds_errors w3, ds_warnings := [], indices := None\<rparr>"
    by (metis OWDataSampler.update_convs(2) OWDataSampler.surjective)
  with w' show ?thesis by simp
qed

lemma updateindices_error_again:
  assumes u: "updateindices sample d w = Inr w'" and e: "Error_active w'"
  shows "updateindices sample d w' = Inr w'"
proof -
  from updateindices_error [OF u e] obtain w3 repl size' where
    c: "check_sampling d w = Inr (w3, repl, size')" and a: "Error_active w3"
    and w': "w' = w3\<lparr>indices := None\<rparr>"
    by blast
  from updateindices_error_frame [OF u e]
  have f: "w' = w\<lparr>ds_errors := ds_errors w', ds_warnings := [], indices := None\<rparr>" by blast
  have "check_sampling d w' = Inr (w3\<lparr>indices := None\<rparr>, repl, size')"
    by (subst f) (simp add: check_sampling_settings c)
  with a w' show ?thesis
    by (simp add: updateindices_def Error_active_def)
qed

lemma commit_after_error:
  assumes d: "ds_data w = Some d" "\<not> ds_is_sql d"
    and again: "indices w = None \<or> \<not> use_seed w"
    and u: "updateindices sample d w = Inr w'" and e: "Error_active w'"
  shows "OWDataSampler_commit sample sql_sample w = Inr w'"
  using assms updateindices_error_frame [OF u e]
  by (auto simp: OWDataSampler_commit_def)

lemma set_data_after_error:
  assumes d: "\<not> ds_is_sql d"
    and u: "updateindices sample d (v\<lparr>ds_data := Some d\<rparr>) = Inr v'" and e: "Error_active v'"
  shows "OWDataSampler_set_data sample sql_sample (Some d) v = Inr v'"
proof -
  from updateindices_error_frame [OF u e]
  have i: "indices v' = None" and dd: "ds_data v' = Some d" by simp_all
  from updateindices_error_again [OF u e] have again: "updateindices sample d v' = Inr v'" .
  have "OWDataSampler_commit sample sql_sample v' = Inr v'"
    by (rule commit_after_error [OF dd d _ again e]) (simp add: i)
  with d u show ?thesis by (simp add: OWDataSampler_set_data_def Let_def)
qed

lemma updateindices_activates:
  assumes "check_sampling d w = Inr (w3, repl, size')" and "x \<in> set (ds_errors w3)"
  shows "\<exists>w'. updateindices sample d w = Inr w' \<and> x \<in> set (ds_errors w') \<and> Error_active w'"
  using assms by (auto simp: updateindices_def Error_active_def)

text \<open>
  C10. In the Data Sampler, for data that are not an \<open>SqlTable\<close>: when \<open>updateindices\<close>
  leaves an error active, it has set \<open>indices\<close> to \<open>None\<close> and sent nothing; a \<open>commit\<close>
  that computes the indices (there are none, or the seed is not used) then returns at
  once with the widget as \<open>updateindices\<close> left it, so nothing is sent and the outputs
  keep what was sent before; the same holds for \<open>set_data\<close> with such data. The four
  conditions activate their errors: no rows; more folds than rows; a fixed size above the
  number of rows without replacement; stratification with no more rows than classes when
  sampling without replacement.
\<close>

theorem sampler_error_keeps_outputs:
  "(updateindices sample d w = Inr w' \<and> Error_active w'
      \<longrightarrow> indices w' = None \<and> ds_sent w' = ds_sent w)
   \<and> (ds_data w = Some d \<and> \<not> ds_is_sql d \<and> (indices w = None \<or> \<not> use_seed w)
        \<and> updateindices sample d w = Inr w' \<and> Error_active w'
      \<longrightarrow> OWDataSampler_commit sample sql_sample w = Inr w' \<and> ds_sent w' = ds_sent w)
   \<and> (\<not> ds_is_sql d \<and> updateindices sample d (v\<lparr>ds_data := Some d\<rparr>) = Inr v' \<and> Error_active v'
      \<longrightarrow> OWDataSampler_set_data sample sql_sample (Some d) v = Inr v'
          \<and> indices v' = None \<and> ds_sent v' = ds_sent v)
   \<and> (ds_rows d = []
      \<longrightarrow> (\<exists>u. updateindices sample d w = Inr u \<and> no_data \<in> set (ds_errors u) \<and> Error_active u))
   \<and> (ds_rows d \<noteq> [] \<and> sampling_type w = CrossValidation
        \<and> length (ds_rows d) < number_of_folds w
      \<longrightarrow> (\<exists>u. updateindices sample d w = Inr u \<and> too_many_folds \<in> set (ds_errors u)
             \<and> Error_active u))
   \<and> (ds_rows d \<noteq> [] \<and> sampling_type w = FixedSize \<and> \<not> replacement w
        \<and> length (ds_rows d) < sampleSizeNumber w
      \<longrightarrow> (\<exists>u. updateindices sample d w = Inr u \<and> sample_larger_than_data \<in> set (ds_errors u)
             \<and> Error_active u))
   \<and> (ds_rows d \<noteq> [] \<and> stratify w \<and> ds_class_values d = Some c \<and> length (ds_rows d) \<le> c
        \<and> (sampling_type w = FixedProportion \<or> sampling_type w = FixedSize \<and> \<not> replacement w)
      \<longrightarrow> (\<exists>u. updateindices sample d w = Inr u \<and> not_enough_to_stratify \<in> set (ds_errors u)
             \<and> Error_active u))"
proof -
  have 1: "updateindices sample d w = Inr w' \<and> Error_active w'
      \<longrightarrow> indices w' = None \<and> ds_sent w' = ds_sent w"
    using updateindices_error_frame [of sample d w w'] by blast
  have 2: "ds_data w = Some d \<and> \<not> ds_is_sql d \<and> (indices w = None \<or> \<not> use_seed w)
        \<and> updateindices sample d w = Inr w' \<and> Error_active w'
      \<longrightarrow> OWDataSampler_commit sample sql_sample w = Inr w' \<and> ds_sent w' = ds_sent w"
    using commit_after_error [of w d sample w' sql_sample]
      updateindices_error_frame [of sample d w w'] by blast
  have 3: "\<not> ds_is_sql d \<and> updateindices sample d (v\<lparr>ds_data := Some d\<rparr>) = Inr v' \<and> Error_active v'
      \<longrightarrow> OWDataSampler_set_data sample sql_sample (Some d) v = Inr v'
          \<and> indices v' = None \<and> ds_sent v' = ds_sent v"
    using set_data_after_error [of d sample v v' sql_sample]
      updateindices_error_frame [of sample d "v\<lparr>ds_data := Some d\<rparr>" v'] by auto
  have 4: "ds_rows d = []
      \<longrightarrow> (\<exists>u. updateindices sample d w = Inr u \<and> no_data \<in> set (ds_errors u) \<and> Error_active u)"
  proof
    assume "ds_rows d = []"
    then have "\<exists>w3 repl size'. check_sampling d w = Inr (w3, repl, size')
        \<and> no_data \<in> set (ds_errors w3)"
      by (auto simp: check_sampling_def Let_def)
    then show "\<exists>u. updateindices sample d w = Inr u \<and> no_data \<in> set (ds_errors u) \<and> Error_active u"
      using updateindices_activates [where sample = sample and d = d and w = w] by blast
  qed
  have 5: "ds_rows d \<noteq> [] \<and> sampling_type w = CrossValidation
        \<and> length (ds_rows d) < number_of_folds w
      \<longrightarrow> (\<exists>u. updateindices sample d w = Inr u \<and> too_many_folds \<in> set (ds_errors u)
             \<and> Error_active u)"
  proof
    assume "ds_rows d \<noteq> [] \<and> sampling_type w = CrossValidation
        \<and> length (ds_rows d) < number_of_folds w"
    then have "\<exists>w3 repl size'. check_sampling d w = Inr (w3, repl, size')
        \<and> too_many_folds \<in> set (ds_errors w3)"
      by (auto simp: check_sampling_def Let_def CrossValidation_def FixedSize_def
          FixedProportion_def)
    then show "\<exists>u. updateindices sample d w = Inr u \<and> too_many_folds \<in> set (ds_errors u)
        \<and> Error_active u"
      using updateindices_activates [where sample = sample and d = d and w = w] by blast
  qed
  have 6: "ds_rows d \<noteq> [] \<and> sampling_type w = FixedSize \<and> \<not> replacement w
        \<and> length (ds_rows d) < sampleSizeNumber w
      \<longrightarrow> (\<exists>u. updateindices sample d w = Inr u \<and> sample_larger_than_data \<in> set (ds_errors u)
             \<and> Error_active u)"
  proof
    assume "ds_rows d \<noteq> [] \<and> sampling_type w = FixedSize \<and> \<not> replacement w
        \<and> length (ds_rows d) < sampleSizeNumber w"
    then have "\<exists>w3 repl size'. check_sampling d w = Inr (w3, repl, size')
        \<and> sample_larger_than_data \<in> set (ds_errors w3)"
      by (auto simp: check_sampling_def Let_def)
    then show "\<exists>u. updateindices sample d w = Inr u \<and> sample_larger_than_data \<in> set (ds_errors u)
        \<and> Error_active u"
      using updateindices_activates [where sample = sample and d = d and w = w] by blast
  qed
  have 7: "ds_rows d \<noteq> [] \<and> stratify w \<and> ds_class_values d = Some c \<and> length (ds_rows d) \<le> c
        \<and> (sampling_type w = FixedProportion \<or> sampling_type w = FixedSize \<and> \<not> replacement w)
      \<longrightarrow> (\<exists>u. updateindices sample d w = Inr u \<and> not_enough_to_stratify \<in> set (ds_errors u)
             \<and> Error_active u)"
  proof
    assume "ds_rows d \<noteq> [] \<and> stratify w \<and> ds_class_values d = Some c \<and> length (ds_rows d) \<le> c
        \<and> (sampling_type w = FixedProportion \<or> sampling_type w = FixedSize \<and> \<not> replacement w)"
    then have "\<exists>w3 repl size'. check_sampling d w = Inr (w3, repl, size')
        \<and> not_enough_to_stratify \<in> set (ds_errors w3)"
      by (auto simp: check_sampling_def Let_def FixedSize_def FixedProportion_def)
    then show "\<exists>u. updateindices sample d w = Inr u \<and> not_enough_to_stratify \<in> set (ds_errors u)
        \<and> Error_active u"
      using updateindices_activates [where sample = sample and d = d and w = w] by blast
  qed
  from 1 2 3 4 5 6 7 show ?thesis by blast
qed

lemma example_updateindices:
  "updateindices example_sample example_dataset (example_sampler\<lparr>ds_data := Some example_dataset\<rparr>)
     = Inr (example_sampler\<lparr>ds_data := Some example_dataset,
                             ds_errors := [sample_larger_than_data]\<rparr>)"
  by (simp add: updateindices_def check_sampling_def example_sampler_def example_dataset_def
      Error_active_def FixedSize_def FixedProportion_def Let_def)

theorem sampler_error_keeps_outputs_witness:
  "OWDataSampler_set_data example_sample example_sql_sample (Some example_dataset) example_sampler
     = Inr (example_sampler\<lparr>ds_data := Some example_dataset,
                             ds_errors := [sample_larger_than_data]\<rparr>)
   \<and> ds_sent (example_sampler\<lparr>ds_data := Some example_dataset,
                               ds_errors := [sample_larger_than_data]\<rparr>)
       = [(''Data Sample'', Some [7]), (''Remaining Data'', Some [8])]"
proof -
  let ?v' = "example_sampler\<lparr>ds_data := Some example_dataset,
                             ds_errors := [sample_larger_than_data]\<rparr>"
  have prem: "\<not> ds_is_sql example_dataset
      \<and> updateindices example_sample example_dataset (example_sampler\<lparr>ds_data := Some example_dataset\<rparr>)
          = Inr ?v'
      \<and> Error_active ?v'"
    by (simp add: example_updateindices) (simp add: example_dataset_def Error_active_def)
  note T = sampler_error_keeps_outputs
      [where sample = example_sample and sql_sample = example_sql_sample and d = example_dataset
        and v = example_sampler and v' = ?v', THEN conjunct2, THEN conjunct2, THEN conjunct1]
  from T prem have "OWDataSampler_set_data example_sample example_sql_sample (Some example_dataset)
        example_sampler = Inr ?v'
      \<and> indices ?v' = None \<and> ds_sent ?v' = ds_sent example_sampler"
    by (rule mp)
  then show ?thesis by (simp add: example_sampler_def)
qed

section \<open>Delivery of the terminal state of a task\<close>











section \<open>Where the long computations run\<close>

lemma start_task: "task (start t w) = Some (next_id w, t)"
  by (simp add: start_def cancel_def)




section \<open>The immediate and the deferred commit\<close>














section \<open>The values on the output channels\<close>




end
